theory Spec2Isabelle
  imports Complex_Main "HOL-Library.AList" "HOL-Library.Multiset"
begin

section \<open>The analytics engine of the Teacher Assessment Tool\<close>

text \<open>
  A shallow embedding of \<^verbatim>\<open>src/utils/analytics.ts\<close>: the four exported functions
  \<^verbatim>\<open>calculateTrends\<close>, \<^verbatim>\<open>calculatePeerComparison\<close>, \<^verbatim>\<open>generateInterventionAlerts\<close>,
  \<^verbatim>\<open>generateRecommendations\<close> and their helpers \<^verbatim>\<open>getWeekKey\<close>, \<^verbatim>\<open>getMonthKey\<close>,
  \<^verbatim>\<open>getRecommendationMap\<close>.

  Conventions of the model.
  \<^item> A JavaScript \<^verbatim>\<open>number\<close> is a \<^typ>\<open>real\<close>. Where the code adds, subtracts, multiplies or
    divides numbers on which an alert, a percentile or a week number depends, the result
    is rounded to the nearest double (\<open>jsAdd\<close>, \<open>jsSub\<close>, \<open>jsMul\<close>, \<open>jsDiv\<close>), so that a
    comparison reads the number that the code compares. Counts and indices are exact, as
    integers below \<open>2 ^ 53\<close> are in doubles. There is no infinity, and the only NaN is that
    of an invalid Date. \<^verbatim>\<open>Math.round\<close> is \<^const>\<open>round\<close> (half up), \<^verbatim>\<open>Math.ceil\<close> is the
    ceiling.
  \<^item> A \<^verbatim>\<open>Map\<close> and an object used as a dictionary are association lists in insertion
    order: \<^const>\<open>map_of\<close> reads a key, \<^const>\<open>AList.update\<close> writes one (an existing key keeps its
    place, a new key goes to the end), \<^const>\<open>AList.map_entry\<close> changes the value under an
    existing key. An object is listed in the order in which its keys were added
    (JavaScript lists keys that look like array indices first; no theorem below reads the
    order of the keys of an object).
  \<^item> A plain object also answers to the names that it inherits from \<^verbatim>\<open>Object.prototype\<close>,
    and three of the functions throw a TypeError when a category has such a name.
    \<open>generateRecommendations\<close> returns the exception or the array. For the other two,
    \<open>calculateTrends\<close> and \<open>calculatePeerComparison\<close> are the array that a call returns, and
    \<open>calculateTrendsE\<close> and \<open>calculatePeerComparisonE\<close> are the calls, which return the
    exception or that array.
  \<^item> \<^verbatim>\<open>Array.prototype.sort\<close> is stable, and a comparator \<^verbatim>\<open>k(a) - k(b)\<close> orders by the
    key \<^verbatim>\<open>k\<close>: it is \<^const>\<open>sort_key\<close>.
  \<^item> A \<^verbatim>\<open>forEach\<close> that pushes to an array is a \<^const>\<open>foldl\<close> that appends, or the
    concatenation of what each iteration pushes.
\<close>

subsection \<open>Data model\<close>

text \<open>
  A \<^verbatim>\<open>Date\<close> is modelled by what its local-time getters return: \<^verbatim>\<open>getFullYear()\<close>,
  \<^verbatim>\<open>getMonth()\<close> (0 to 11), \<^verbatim>\<open>getDate()\<close> (1 to 31) and the milliseconds since local
  midnight. \<open>InvalidDate\<close> is the Date whose time value is NaN.
\<close>

datatype jsdate = InvalidDate | LocalDate int nat nat nat

record CategoryScore =
  cs_category :: string
  cs_score :: real
  cs_isAutoSuggested :: bool

text \<open>
  \<open>log_timestamp\<close> holds the Date that \<^verbatim>\<open>new Date(log.timestamp)\<close> builds from the ISO
  string. \<open>log_categories\<close> is \<open>None\<close> when the property is absent (the code tests
  \<^verbatim>\<open>if (log.categories)\<close> and \<^verbatim>\<open>log.categories?.\<close>).
\<close>

record ObservationLog =
  log_id :: string
  log_studentId :: string
  log_studentName :: string
  log_timestamp :: jsdate
  log_observation :: string
  log_tags :: "string list"
  log_categories :: "CategoryScore list option"

record TrendData =
  td_period :: string
  td_scores :: "(string \<times> real) list"
  td_totalObservations :: nat

record PeerComparison =
  pc_studentId :: string
  pc_studentName :: string
  pc_categoryAverages :: "(string \<times> real) list"
  pc_percentile :: "(string \<times> int) list"
  pc_overallPercentile :: int

datatype alertType = Decline | Threshold | Improvement

datatype severity = Low | Medium | High

record InterventionAlert =
  al_studentId :: string
  al_studentName :: string
  al_alertType :: alertType
  al_category :: string
  al_severity :: severity
  al_message :: string
  al_score :: real
  al_threshold :: real
  al_trend :: real

record Recommendation =
  rc_studentId :: string
  rc_studentName :: string
  rc_category :: string
  rc_recommendation :: string
  rc_activity :: string
  rc_resources :: "string list"
  rc_priority :: severity

text \<open>One score-band rule of the static catalog.\<close>

record RecRule =
  minScore :: real
  maxScore :: real
  recommendation :: string
  activity :: string
  resources :: "string list"

subsection \<open>JavaScript helpers\<close>

text \<open>Decimal rendering of an integer-valued number, as \<^verbatim>\<open>toString()\<close> and a template literal give it.\<close>

definition digitChar :: "nat \<Rightarrow> char" where
  "digitChar n = ''0123456789'' ! (n mod 10)"

fun natToString :: "nat \<Rightarrow> string" where
  "natToString n = (if n < 10 then [digitChar n] else natToString (n div 10) @ [digitChar n])"

declare natToString.simps [simp del]

definition intToString :: "int \<Rightarrow> string" where
  "intToString i = (if i < 0 then CHR ''-'' # natToString (nat (- i)) else natToString (nat i))"

text \<open>\<^verbatim>\<open>s.padStart(2, '0')\<close>.\<close>

definition padStart2 :: "string \<Rightarrow> string" where
  "padStart2 s = replicate (2 - length s) CHR ''0'' @ s"

text \<open>
  \<^verbatim>\<open>xs.slice(start, end)\<close> and \<^verbatim>\<open>xs.slice(start)\<close>: a negative index counts from the end, and
  both indices are clamped to the array.
\<close>

definition sliceIndex :: "nat \<Rightarrow> int \<Rightarrow> nat" where
  "sliceIndex len i = (if i < 0 then nat (max (int len + i) 0) else min (nat i) len)"

definition jsSlice :: "'a list \<Rightarrow> int \<Rightarrow> int \<Rightarrow> 'a list" where
  "jsSlice xs start end =
     (let from = sliceIndex (length xs) start; to = sliceIndex (length xs) end
      in take (to - from) (drop from xs))"

definition jsSliceFrom :: "'a list \<Rightarrow> int \<Rightarrow> 'a list" where
  "jsSliceFrom xs start = drop (sliceIndex (length xs) start) xs"

text \<open>
  The double nearest to a real number \<open>x\<close>: with \<open>2 ^ e \<le> \<bar>x\<bar> < 2 ^ (e + 1)\<close>, the number is
  rounded to a multiple of \<open>2 ^ (e - 52)\<close>, or of \<open>2 ^ - 1074\<close> where it is subnormal, and a tie
  goes to the even multiple. \<open>binadeAux\<close> finds \<open>e\<close> by halving or doubling, at most 2200
  times (the exponents of doubles lie between -1074 and 1023). A result of magnitude
  \<open>2 ^ 1024\<close> or more, which is infinite in JavaScript, does not arise from scores and
  counts and is not modelled.
\<close>

definition roundHalfEven :: "real \<Rightarrow> int" where
  "roundHalfEven y =
     (let f = \<lfloor>y\<rfloor>; r = y - of_int f
      in if r < 1 / 2 then f else if 1 / 2 < r then f + 1 else if even f then f else f + 1)"

fun binadeAux :: "nat \<Rightarrow> real \<Rightarrow> int" where
  "binadeAux fuel x =
     (if fuel = 0 then 0
      else if 2 \<le> x then binadeAux (fuel - 1) (x / 2) + 1
      else if x < 1 then binadeAux (fuel - 1) (x * 2) - 1
      else 0)"

declare binadeAux.simps [simp del]

definition binade :: "real \<Rightarrow> int" where
  "binade x = binadeAux 2200 \<bar>x\<bar>"

definition pow2 :: "int \<Rightarrow> real" where
  "pow2 k = (if 0 \<le> k then 2 ^ nat k else 1 / 2 ^ nat (- k))"

definition roundDouble :: "real \<Rightarrow> real" where
  "roundDouble x =
     (if x = 0 then 0
      else let q = max (binade x - 52) (- 1074)
           in of_int (roundHalfEven (x / pow2 q)) * pow2 q)"

text \<open>
  The operators \<^verbatim>\<open>+\<close>, \<^verbatim>\<open>-\<close>, \<^verbatim>\<open>*\<close> and \<^verbatim>\<open>/\<close> on numbers: the exact result, rounded to a
  double. A decimal literal of the source or of an input, such as \<^verbatim>\<open>0.7\<close>, denotes
  \<open>roundDouble (7 / 10)\<close>.
\<close>

definition jsAdd :: "real \<Rightarrow> real \<Rightarrow> real" where
  "jsAdd a b = roundDouble (a + b)"

definition jsSub :: "real \<Rightarrow> real \<Rightarrow> real" where
  "jsSub a b = roundDouble (a - b)"

definition jsMul :: "real \<Rightarrow> real \<Rightarrow> real" where
  "jsMul a b = roundDouble (a * b)"

definition jsDiv :: "real \<Rightarrow> real \<Rightarrow> real" where
  "jsDiv a b = roundDouble (a / b)"

text \<open>An exception that leaves a function: the function returns \<open>Inl\<close> of it.\<close>

datatype error = TypeError

text \<open>
  The names of the properties that every plain object inherits from \<^verbatim>\<open>Object.prototype\<close>.
  The value of each of them is truthy (a function, or for \<^verbatim>\<open>__proto__\<close> the prototype
  object), and none is an array.
\<close>

definition objectPrototypeNames :: "string list" where
  "objectPrototypeNames =
     [''constructor'', ''hasOwnProperty'', ''isPrototypeOf'', ''propertyIsEnumerable'',
      ''toLocaleString'', ''toString'', ''valueOf'', ''__proto__'',
      ''__defineGetter__'', ''__defineSetter__'', ''__lookupGetter__'', ''__lookupSetter__'']"

text \<open>
  \<^verbatim>\<open>xs.reduce((a, b) => a + b, 0) / xs.length\<close>, twice. \<open>jsAverage\<close> is the number that the
  code computes, each sum and the quotient rounded to a double; the alerts and the
  percentiles are decided on it. \<open>average\<close> is the exact quotient, from which that number
  differs by the rounding only; it stands for the averages that a trend entry reports,
  on which the code decides nothing.
\<close>

definition jsAverage :: "real list \<Rightarrow> real" where
  "jsAverage xs = jsDiv (foldl jsAdd 0 xs) (real (length xs))"

definition average :: "real list \<Rightarrow> real" where
  "average xs = foldl (+) 0 xs / real (length xs)"

text \<open>
  The pattern \<^verbatim>\<open>if (!obj[category]) obj[category] = []; obj[category].push(score)\<close> that
  \<^verbatim>\<open>calculateTrends\<close> and \<^verbatim>\<open>calculatePeerComparison\<close> both use.
\<close>

definition addScore :: "(string \<times> real list) list \<Rightarrow> CategoryScore \<Rightarrow> (string \<times> real list) list" where
  "addScore obj categoryScore =
     (let category = cs_category categoryScore;
          obj1 = (if map_of obj category = None then AList.update category [] obj else obj)
      in AList.map_entry category (\<lambda>arr. arr @ [cs_score categoryScore]) obj1)"

text \<open>\<^verbatim>\<open>if (!m.has(key)) m.set(key, init)\<close>.\<close>

definition initKey :: "'k \<Rightarrow> 'v \<Rightarrow> ('k \<times> 'v) list \<Rightarrow> ('k \<times> 'v) list" where
  "initKey key init m = (if map_of m key = None then AList.update key init m else m)"

subsection \<open>Time bucketing\<close>

text \<open>
  \<^verbatim>\<open>new Date(year, month, 1).getDay()\<close>, after ECMAScript: the constructor reads a year from
  0 to 99 as 1900 + year (MakeFullYear), MakeDay counts the days since 1 January 1970
  and WeekDay is \<open>(day + 4) mod 7\<close>, Sunday being 0. TimeClip makes the Date invalid when
  its time value is more than 8.64e15 milliseconds, that is 100000000 days, from the
  epoch, and \<^verbatim>\<open>getDay()\<close> of an invalid Date is NaN (\<open>None\<close>). The two days at that distance
  are 20 April -271821 and 13 September 275760, no first days of a month, and every
  other day lies inside or outside the range as a whole in any time zone: the test on the
  day number is that of the code.
\<close>

definition makeFullYear :: "int \<Rightarrow> int" where
  "makeFullYear y = (if 0 \<le> y \<and> y \<le> 99 then 1900 + y else y)"

definition dayFromYear :: "int \<Rightarrow> int" where
  "dayFromYear y = 365 * (y - 1970) + (y - 1969) div 4 - (y - 1901) div 100 + (y - 1601) div 400"

definition inLeapYear :: "int \<Rightarrow> bool" where
  "inLeapYear y = (y mod 4 = 0 \<and> (y mod 100 \<noteq> 0 \<or> y mod 400 = 0))"

definition daysBeforeMonth :: "bool \<Rightarrow> nat \<Rightarrow> int" where
  "daysBeforeMonth leap m =
     [0, 31, 59, 90, 120, 151, 181, 212, 243, 273, 304, 334] ! (m mod 12)
       + (if leap \<and> 2 \<le> m mod 12 then 1 else 0)"

definition makeDay :: "int \<Rightarrow> nat \<Rightarrow> nat \<Rightarrow> int" where
  "makeDay y m d =
     (let ym = y + int (m div 12)
      in dayFromYear ym + daysBeforeMonth (inLeapYear ym) m + int d - 1)"

definition weekDay :: "int \<Rightarrow> nat" where
  "weekDay day = nat ((day + 4) mod 7)"

definition firstOfMonthGetDay :: "int \<Rightarrow> nat \<Rightarrow> nat option" where
  "firstOfMonthGetDay year month =
     (let day = makeDay (makeFullYear year) month 1
      in if \<bar>day\<bar> \<le> 100000000 then Some (weekDay day) else None)"

text \<open>
  \<^verbatim>\<open>getWeekKey\<close>. With a NaN weekday the week is NaN, which \<^verbatim>\<open>toString()\<close> renders as
  \<^verbatim>\<open>NaN\<close> and \<^verbatim>\<open>padStart(2, '0')\<close> leaves, being three characters long.
\<close>

fun getWeekKey :: "jsdate \<Rightarrow> string" where
  "getWeekKey InvalidDate = ''NaN-WNaN''"
| "getWeekKey (LocalDate year month dayOfMonth ms) =
     (case firstOfMonthGetDay year month of
        None \<Rightarrow> intToString year @ ''-WNaN''
      | Some firstDay \<Rightarrow>
          (let week = \<lceil>jsDiv (real dayOfMonth + real firstDay) 7\<rceil>
           in intToString year @ ''-W'' @ padStart2 (intToString week)))"

fun getMonthKey :: "jsdate \<Rightarrow> string" where
  "getMonthKey InvalidDate = ''NaN-NaN''"
| "getMonthKey (LocalDate year month dayOfMonth ms) =
     intToString year @ ''-'' @ padStart2 (natToString (month + 1))"

subsection \<open>Trend aggregation\<close>

text \<open>
  \<^verbatim>\<open>studentId ? logs.filter(log => log.studentId === studentId) : logs\<close>: an absent and an
  empty \<^verbatim>\<open>studentId\<close> are both falsy.
\<close>

definition filterLogs :: "ObservationLog list \<Rightarrow> string option \<Rightarrow> ObservationLog list" where
  "filterLogs logs studentId =
     (case studentId of
        None \<Rightarrow> logs
      | Some s \<Rightarrow> if s = [] then logs else filter (\<lambda>lg. log_studentId lg = s) logs)"

type_synonym buckets = "(string \<times> (string \<times> real list) list) list"

text \<open>The body of \<^verbatim>\<open>filteredLogs.forEach\<close>, on the pair of maps \<^verbatim>\<open>(weeklyData, monthlyData)\<close>.\<close>

definition trendStep :: "buckets \<times> buckets \<Rightarrow> ObservationLog \<Rightarrow> buckets \<times> buckets" where
  "trendStep wm lg =
     (let date = log_timestamp lg;
          weekKey = getWeekKey date;
          monthKey = getMonthKey date;
          weeklyData = initKey weekKey [] (fst wm);
          monthlyData = initKey monthKey [] (snd wm)
      in case log_categories lg of
           None \<Rightarrow> (weeklyData, monthlyData)
         | Some cats \<Rightarrow>
             foldl (\<lambda>(w, m) categoryScore.
                      (AList.map_entry weekKey (\<lambda>obj. addScore obj categoryScore) w,
                       AList.map_entry monthKey (\<lambda>obj. addScore obj categoryScore) m))
                   (weeklyData, monthlyData) cats)"

text \<open>One \<^verbatim>\<open>TrendData\<close> from an entry \<^verbatim>\<open>[period, scores]\<close> of a bucket map.\<close>

definition toTrend :: "string \<times> (string \<times> real list) list \<Rightarrow> TrendData" where
  "toTrend e =
     \<lparr> td_period = fst e,
       td_scores = map (\<lambda>(category, scoreArray).
                      (category, if length scoreArray > 0 then average scoreArray else 0)) (snd e),
       td_totalObservations = foldl (\<lambda>sum arr. sum + length arr) 0 (map snd (snd e)) \<rparr>"

definition trendBuckets :: "ObservationLog list \<Rightarrow> string option \<Rightarrow> buckets \<times> buckets" where
  "trendBuckets logs studentId = foldl trendStep ([], []) (filterLogs logs studentId)"

text \<open>
  The final \<^verbatim>\<open>sort\<close> compares \<^verbatim>\<open>new Date(period).getTime()\<close> of bucket keys; a week key such
  as \<^verbatim>\<open>2024-W03\<close> is no date format of ECMAScript, so the resulting order is left to the
  engine. The sort is a parameter \<open>sortByPeriod\<close>, of which the theorems assume only that
  it permutes its argument.
\<close>

definition calculateTrends ::
  "(TrendData list \<Rightarrow> TrendData list) \<Rightarrow> ObservationLog list \<Rightarrow> string option \<Rightarrow> TrendData list" where
  "calculateTrends sortByPeriod logs studentId =
     (let wm = trendBuckets logs studentId;
          weeklyTrends = map toTrend (fst wm);
          monthlyTrends = map toTrend (snd wm)
      in sortByPeriod (weeklyTrends @ monthlyTrends))"

subsection \<open>Peer comparison\<close>

text \<open>The five canonical categories, as both \<^verbatim>\<open>calculatePeerComparison\<close> and
  \<^verbatim>\<open>generateInterventionAlerts\<close> list them.\<close>

definition categories :: "string list" where
  "categories = [''Cognitive Skills'', ''Social Skills'', ''Emotional Readiness'',
                 ''Communication'', ''Creativity'']"

record StudentData =
  sd_scores :: "(string \<times> real list) list"
  sd_name :: string

text \<open>The body of the first \<^verbatim>\<open>logs.forEach\<close> of \<^verbatim>\<open>calculatePeerComparison\<close>.\<close>

definition collectStep :: "(string \<times> StudentData) list \<Rightarrow> ObservationLog \<Rightarrow> (string \<times> StudentData) list" where
  "collectStep studentMap lg =
     (let sid = log_studentId lg;
          studentMap1 = initKey sid \<lparr> sd_scores = [], sd_name = log_studentName lg \<rparr> studentMap
      in case log_categories lg of
           None \<Rightarrow> studentMap1
         | Some cats \<Rightarrow>
             foldl (\<lambda>sm categoryScore.
                      AList.map_entry sid
                        (\<lambda>data. data\<lparr> sd_scores := addScore (sd_scores data) categoryScore \<rparr>) sm)
                   studentMap1 cats)"

definition toStudentAverage :: "string \<times> StudentData \<Rightarrow> PeerComparison" where
  "toStudentAverage e =
     \<lparr> pc_studentId = fst e,
       pc_studentName = sd_name (snd e),
       pc_categoryAverages =
         map (\<lambda>(category, scores).
                (category, if length scores > 0 then jsAverage scores else 0)) (sd_scores (snd e)),
       pc_percentile = [],
       pc_overallPercentile = 0 \<rparr>"

text \<open>
  \<^verbatim>\<open>student.categoryAverages[category]\<close> when it passes the test \<^verbatim>\<open>score > 0\<close>; an absent
  average is \<^verbatim>\<open>undefined\<close>, and \<^verbatim>\<open>undefined > 0\<close> is false.
\<close>

definition positiveAverage :: "PeerComparison \<Rightarrow> string \<Rightarrow> real option" where
  "positiveAverage student category =
     (case map_of (pc_categoryAverages student) category of
        None \<Rightarrow> None
      | Some score \<Rightarrow> if score > 0 then Some score else None)"

definition cohortScores :: "PeerComparison list \<Rightarrow> string \<Rightarrow> real list" where
  "cohortScores studentAverages category =
     sort_key (\<lambda>x. x) (List.map_filter (\<lambda>s. positiveAverage s category) studentAverages)"

text \<open>\<^verbatim>\<open>xs.findIndex(p)\<close>: the index of the first element that satisfies \<open>p\<close>, or -1.\<close>

fun findIndex :: "('a \<Rightarrow> bool) \<Rightarrow> 'a list \<Rightarrow> int" where
  "findIndex p [] = - 1"
| "findIndex p (x # xs) =
     (if p x then 0 else (let r = findIndex p xs in if r < 0 then - 1 else r + 1))"

definition percentileOf :: "real list \<Rightarrow> real \<Rightarrow> int" where
  "percentileOf scores score =
     (let rank = findIndex (\<lambda>s. s \<ge> score) scores
      in round (jsMul (jsDiv (of_int rank + 1) (real (length scores))) 100))"

definition setPercentile :: "real list \<Rightarrow> string \<Rightarrow> PeerComparison \<Rightarrow> PeerComparison" where
  "setPercentile scores category student =
     (case positiveAverage student category of
        Some score \<Rightarrow>
          student\<lparr> pc_percentile :=
            AList.update category (percentileOf scores score) (pc_percentile student) \<rparr>
      | None \<Rightarrow>
          student\<lparr> pc_percentile := AList.update category 0 (pc_percentile student) \<rparr>)"

text \<open>The body of \<^verbatim>\<open>categories.forEach\<close>, on the array \<^verbatim>\<open>studentAverages\<close>.\<close>

definition percentileStep :: "PeerComparison list \<Rightarrow> string \<Rightarrow> PeerComparison list" where
  "percentileStep studentAverages category =
     map (setPercentile (cohortScores studentAverages category) category) studentAverages"

definition setOverall :: "PeerComparison \<Rightarrow> PeerComparison" where
  "setOverall student =
     (let validPercentiles = filter (\<lambda>p. p > 0) (map snd (pc_percentile student))
      in student\<lparr> pc_overallPercentile :=
           (if length validPercentiles > 0
            then round (real_of_int (foldl (+) 0 validPercentiles) / real (length validPercentiles))
            else 0) \<rparr>)"

definition calculatePeerComparison :: "ObservationLog list \<Rightarrow> PeerComparison list" where
  "calculatePeerComparison logs =
     (let studentMap = foldl collectStep [] logs;
          studentAverages = map toStudentAverage studentMap;
          withPercentiles = foldl percentileStep studentAverages categories;
          withOverall = map setOverall withPercentiles
      in sort_key (\<lambda>s. - pc_overallPercentile s) withOverall)"

subsection \<open>Calls that throw\<close>

text \<open>
  The dictionaries of scores by category are plain objects, and the test
  \<^verbatim>\<open>!obj[category]\<close> also finds the properties that a plain object inherits. For a category
  of such a name the test is false although the object has no own array: nothing is
  initialised, the inherited value has no \<^verbatim>\<open>push\<close>, and \<^verbatim>\<open>obj[category].push(score)\<close> throws
  a TypeError, which nothing catches. \<open>addScoreE\<close> is the pattern with the exception;
  \<open>addScore\<close> above is what it does otherwise.
\<close>

definition addScoreE ::
  "(string \<times> real list) list \<Rightarrow> CategoryScore \<Rightarrow> error + (string \<times> real list) list" where
  "addScoreE obj categoryScore =
     (let category = cs_category categoryScore
      in case map_of obj category of
           Some arr \<Rightarrow> Inr (AList.map_entry category (\<lambda>arr. arr @ [cs_score categoryScore]) obj)
         | None \<Rightarrow>
             if category \<in> set objectPrototypeNames then Inl TypeError
             else Inr (AList.map_entry category (\<lambda>arr. arr @ [cs_score categoryScore])
                         (AList.update category [] obj)))"

text \<open>
  \<^verbatim>\<open>m.get(key)![category]\<close> and the push, on a map of dictionaries: the dictionary under
  the key takes the score. (A key without a value would give \<^verbatim>\<open>undefined\<close>, whose
  property access throws as well; the loops set the key before.)
\<close>

definition bucketAddE ::
  "string \<Rightarrow> (string \<times> (string \<times> real list) list) list \<Rightarrow> CategoryScore
     \<Rightarrow> error + (string \<times> (string \<times> real list) list) list" where
  "bucketAddE key data categoryScore =
     (case map_of data key of
        None \<Rightarrow> Inl TypeError
      | Some obj \<Rightarrow>
          (case addScoreE obj categoryScore of
             Inl e \<Rightarrow> Inl e
           | Inr obj' \<Rightarrow> Inr (AList.update key obj' data)))"

text \<open>
  \<^verbatim>\<open>calculateTrends\<close> as a call. The body of \<^verbatim>\<open>log.categories.forEach\<close> adds the score to
  the week bucket and then to the month bucket; an exception ends both loops and the
  call.
\<close>

definition trendScoreE ::
  "string \<Rightarrow> string \<Rightarrow> error + buckets \<times> buckets \<Rightarrow> CategoryScore \<Rightarrow> error + buckets \<times> buckets" where
  "trendScoreE weekKey monthKey acc categoryScore =
     (case acc of
        Inl e \<Rightarrow> Inl e
      | Inr (w, m) \<Rightarrow>
          (case bucketAddE weekKey w categoryScore of
             Inl e \<Rightarrow> Inl e
           | Inr w' \<Rightarrow>
               (case bucketAddE monthKey m categoryScore of
                  Inl e \<Rightarrow> Inl e
                | Inr m' \<Rightarrow> Inr (w', m'))))"

definition trendStepE :: "error + buckets \<times> buckets \<Rightarrow> ObservationLog \<Rightarrow> error + buckets \<times> buckets" where
  "trendStepE acc lg =
     (case acc of
        Inl e \<Rightarrow> Inl e
      | Inr wm \<Rightarrow>
          (let date = log_timestamp lg;
               weekKey = getWeekKey date;
               monthKey = getMonthKey date;
               weeklyData = initKey weekKey [] (fst wm);
               monthlyData = initKey monthKey [] (snd wm)
           in case log_categories lg of
                None \<Rightarrow> Inr (weeklyData, monthlyData)
              | Some cats \<Rightarrow>
                  foldl (trendScoreE weekKey monthKey) (Inr (weeklyData, monthlyData)) cats))"

definition calculateTrendsE ::
  "(TrendData list \<Rightarrow> TrendData list) \<Rightarrow> ObservationLog list \<Rightarrow> string option
     \<Rightarrow> error + TrendData list" where
  "calculateTrendsE sortByPeriod logs studentId =
     (case foldl trendStepE (Inr ([], [])) (filterLogs logs studentId) of
        Inl e \<Rightarrow> Inl e
      | Inr wm \<Rightarrow> Inr (sortByPeriod (map toTrend (fst wm) @ map toTrend (snd wm))))"

text \<open>
  \<^verbatim>\<open>calculatePeerComparison\<close> as a call: the collecting loop with the exception, and the
  rest of the function on the map that the loop leaves.
\<close>

definition collectScoreE ::
  "string \<Rightarrow> error + (string \<times> StudentData) list \<Rightarrow> CategoryScore
     \<Rightarrow> error + (string \<times> StudentData) list" where
  "collectScoreE sid acc categoryScore =
     (case acc of
        Inl e \<Rightarrow> Inl e
      | Inr sm \<Rightarrow>
          (case map_of sm sid of
             None \<Rightarrow> Inl TypeError
           | Some data \<Rightarrow>
               (case addScoreE (sd_scores data) categoryScore of
                  Inl e \<Rightarrow> Inl e
                | Inr scores \<Rightarrow> Inr (AList.update sid (data\<lparr> sd_scores := scores \<rparr>) sm))))"

definition collectStepE ::
  "error + (string \<times> StudentData) list \<Rightarrow> ObservationLog \<Rightarrow> error + (string \<times> StudentData) list" where
  "collectStepE acc lg =
     (case acc of
        Inl e \<Rightarrow> Inl e
      | Inr studentMap \<Rightarrow>
          (let sid = log_studentId lg;
               studentMap1 = initKey sid \<lparr> sd_scores = [], sd_name = log_studentName lg \<rparr> studentMap
           in case log_categories lg of
                None \<Rightarrow> Inr studentMap1
              | Some cats \<Rightarrow> foldl (collectScoreE sid) (Inr studentMap1) cats))"

definition calculatePeerComparisonE :: "ObservationLog list \<Rightarrow> error + PeerComparison list" where
  "calculatePeerComparisonE logs =
     (case foldl collectStepE (Inr []) logs of
        Inl e \<Rightarrow> Inl e
      | Inr studentMap \<Rightarrow>
          (let studentAverages = map toStudentAverage studentMap;
               withPercentiles = foldl percentileStep studentAverages categories;
               withOverall = map setOverall withPercentiles
           in Inr (sort_key (\<lambda>s. - pc_overallPercentile s) withOverall)))"

subsection \<open>Intervention alerts\<close>

text \<open>The body of the grouping loop: \<^verbatim>\<open>studentMap.get(log.studentId)!.push(log)\<close>.\<close>

definition groupStep ::
  "(string \<times> ObservationLog list) list \<Rightarrow> ObservationLog \<Rightarrow> (string \<times> ObservationLog list) list" where
  "groupStep studentMap lg =
     AList.map_entry (log_studentId lg) (\<lambda>arr. arr @ [lg]) (initKey (log_studentId lg) [] studentMap)"

text \<open>\<^verbatim>\<open>log.categories?.some(cat => cat.category === category)\<close>, read as a condition.\<close>

definition hasCategory :: "string \<Rightarrow> ObservationLog \<Rightarrow> bool" where
  "hasCategory category lg =
     (case log_categories lg of
        None \<Rightarrow> False
      | Some cats \<Rightarrow> list_ex (\<lambda>cat. cs_category cat = category) cats)"

text \<open>\<^verbatim>\<open>log.categories?.filter(cat => cat.category === category) || []\<close>.\<close>

definition categoryEntries :: "string \<Rightarrow> ObservationLog \<Rightarrow> CategoryScore list" where
  "categoryEntries category lg =
     (case log_categories lg of
        None \<Rightarrow> []
      | Some cats \<Rightarrow> filter (\<lambda>cat. cs_category cat = category) cats)"

text \<open>
  \<^verbatim>\<open>new Date(a).getTime()\<close> for a number \<open>a\<close>: the number is taken as a time value in
  milliseconds and TimeClip truncates it towards zero (for a magnitude up to 8.64e15,
  which every score on the scale has).
\<close>

definition dateTimeOfNumber :: "real \<Rightarrow> int" where
  "dateTimeOfNumber a = (if a < 0 then \<lceil>a\<rceil> else \<lfloor>a\<rfloor>)"

text \<open>
  The array \<^verbatim>\<open>scores\<close>: the scores of the category in the records of \<^verbatim>\<open>categoryLogs\<close>, in
  the order of the records, then sorted with the comparator
  \<^verbatim>\<open>(a, b) => new Date(a).getTime() - new Date(b).getTime()\<close> on the scores themselves.
\<close>

definition sortedScores :: "ObservationLog list \<Rightarrow> string \<Rightarrow> real list" where
  "sortedScores categoryLogs category =
     sort_key dateTimeOfNumber
       (map cs_score (concat (map (categoryEntries category) categoryLogs)))"

text \<open>
  \<^verbatim>\<open>decline > 1 ? 'high' : decline > 0.7 ? 'medium' : 'low'\<close>; the literal \<^verbatim>\<open>0.7\<close> is the
  double nearest to 7/10.
\<close>

definition declineSeverity :: "real \<Rightarrow> severity" where
  "declineSeverity decline =
     (if decline > 1 then High else if decline > roundDouble (7 / 10) then Medium else Low)"

definition thresholdSeverity :: "real \<Rightarrow> severity" where
  "thresholdSeverity currentScore =
     (if currentScore < 3 / 2 then High else if currentScore < 2 then Medium else Low)"

text \<open>
  The decline check. \<open>toFixed1\<close> stands for \<^verbatim>\<open>Number.prototype.toFixed(1)\<close>, which only the
  message uses.
\<close>

definition declineAlerts ::
  "(real \<Rightarrow> string) \<Rightarrow> string \<Rightarrow> string \<Rightarrow> string \<Rightarrow> real list \<Rightarrow> InterventionAlert list" where
  "declineAlerts toFixed1 studentId studentName category scores =
     (if length scores \<ge> 3 then
        (let recentScores = jsSliceFrom scores (- 3);
             olderScores = jsSlice scores (- 6) (- 3)
         in if length olderScores > 0 then
              (let recentAvg = jsAverage recentScores;
                   olderAvg = jsAverage olderScores;
                   decline = jsSub olderAvg recentAvg
               in if decline > 1 / 2 then
                    [\<lparr> al_studentId = studentId,
                       al_studentName = studentName,
                       al_alertType = Decline,
                       al_category = category,
                       al_severity = declineSeverity decline,
                       al_message = category @ '' scores have declined by '' @ toFixed1 decline @ '' points'',
                       al_score = recentAvg,
                       al_threshold = olderAvg,
                       al_trend = decline \<rparr>]
                  else [])
            else [])
      else [])"

text \<open>
  The threshold check on \<^verbatim>\<open>scores[scores.length - 1]\<close>; on an empty array that is
  \<^verbatim>\<open>undefined\<close>, and \<^verbatim>\<open>undefined < 2.5\<close> is false. \<open>numToString\<close> stands for the rendering
  of a number in a template literal, which only the message uses.
\<close>

definition thresholdAlerts ::
  "(real \<Rightarrow> string) \<Rightarrow> string \<Rightarrow> string \<Rightarrow> string \<Rightarrow> real list \<Rightarrow> InterventionAlert list" where
  "thresholdAlerts numToString studentId studentName category scores =
     (if scores = [] then []
      else
        (let currentScore = last scores
         in if currentScore < 5 / 2 then
              [\<lparr> al_studentId = studentId,
                 al_studentName = studentName,
                 al_alertType = Threshold,
                 al_category = category,
                 al_severity = thresholdSeverity currentScore,
                 al_message = category @ '' score is below threshold ('' @ numToString currentScore @ ''/5)'',
                 al_score = currentScore,
                 al_threshold = 5 / 2,
                 al_trend = 0 \<rparr>]
            else []))"

text \<open>The body of \<^verbatim>\<open>categories.forEach\<close> for one student: what it pushes to \<^verbatim>\<open>alerts\<close>.\<close>

definition pairAlerts ::
  "(real \<Rightarrow> string) \<Rightarrow> (real \<Rightarrow> string) \<Rightarrow> string \<Rightarrow> string \<Rightarrow> ObservationLog list \<Rightarrow> string
     \<Rightarrow> InterventionAlert list" where
  "pairAlerts toFixed1 numToString studentId studentName studentLogs category =
     (let categoryLogs = filter (hasCategory category) studentLogs
      in if length categoryLogs \<ge> 3 then
           (let scores = sortedScores categoryLogs category
            in declineAlerts toFixed1 studentId studentName category scores
               @ thresholdAlerts numToString studentId studentName category scores)
         else [])"

text \<open>
  The body of \<^verbatim>\<open>studentMap.forEach\<close>. \<^verbatim>\<open>studentLogs[0]\<close> exists: a group is created by the
  record that is pushed to it.
\<close>

definition studentAlerts ::
  "(real \<Rightarrow> string) \<Rightarrow> (real \<Rightarrow> string) \<Rightarrow> string \<times> ObservationLog list \<Rightarrow> InterventionAlert list" where
  "studentAlerts toFixed1 numToString e =
     (case snd e of
        [] \<Rightarrow> []
      | lg0 # _ \<Rightarrow>
          concat (map (pairAlerts toFixed1 numToString (fst e) (log_studentName lg0) (snd e))
                      categories))"

definition severityOrder :: "severity \<Rightarrow> int" where
  "severityOrder s = (case s of High \<Rightarrow> 3 | Medium \<Rightarrow> 2 | Low \<Rightarrow> 1)"

definition generateInterventionAlerts ::
  "(real \<Rightarrow> string) \<Rightarrow> (real \<Rightarrow> string) \<Rightarrow> ObservationLog list \<Rightarrow> InterventionAlert list" where
  "generateInterventionAlerts toFixed1 numToString logs =
     (let studentMap = foldl groupStep [] logs;
          alerts = concat (map (studentAlerts toFixed1 numToString) studentMap)
      in sort_key (\<lambda>a. - severityOrder (al_severity a)) alerts)"

subsection \<open>Recommendations\<close>

definition getRecommendationMap :: "(string \<times> RecRule list) list" where
  "getRecommendationMap = [
    (''Cognitive Skills'',
      [
       \<lparr> minScore = 1, maxScore = 2,
         recommendation = ''Focus on foundational problem-solving skills'',
         activity = ''One-on-one problem-solving sessions'',
         resources = [''Math manipulatives'', ''Logic puzzles'', ''Step-by-step guides''] \<rparr>,
       \<lparr> minScore = 2, maxScore = 3,
         recommendation = ''Build critical thinking through guided activities'',
         activity = ''Small group problem-solving activities'',
         resources = [''Brain teasers'', ''Strategy games'', ''Discussion prompts''] \<rparr>
      ]),
    (''Social Skills'',
      [
       \<lparr> minScore = 1, maxScore = 2,
         recommendation = ''Develop basic social interaction skills'',
         activity = ''Structured group activities with clear roles'',
         resources = [''Social stories'', ''Role-playing scenarios'', ''Team building games''] \<rparr>,
       \<lparr> minScore = 2, maxScore = 3,
         recommendation = ''Enhance collaboration and communication'',
         activity = ''Partner and small group projects'',
         resources = [''Collaborative games'', ''Communication exercises'', ''Peer mentoring''] \<rparr>
      ]),
    (''Emotional Readiness'',
      [
       \<lparr> minScore = 1, maxScore = 2,
         recommendation = ''Build emotional awareness and regulation'',
         activity = ''Mindfulness and emotional literacy activities'',
         resources = [''Emotion cards'', ''Breathing exercises'', ''Calm-down strategies''] \<rparr>,
       \<lparr> minScore = 2, maxScore = 3,
         recommendation = ''Strengthen resilience and self-confidence'',
         activity = ''Goal-setting and achievement activities'',
         resources = [''Confidence-building exercises'', ''Growth mindset activities'', ''Success journals''] \<rparr>
      ]),
    (''Communication'',
      [
       \<lparr> minScore = 1, maxScore = 2,
         recommendation = ''Develop basic communication skills'',
         activity = ''Structured speaking and listening activities'',
         resources = [''Picture cards'', ''Sentence starters'', ''Listening games''] \<rparr>,
       \<lparr> minScore = 2, maxScore = 3,
         recommendation = ''Enhance verbal and non-verbal communication'',
         activity = ''Presentation and discussion activities'',
         resources = [''Public speaking exercises'', ''Body language activities'', ''Active listening practice''] \<rparr>
      ]),
    (''Creativity'',
      [
       \<lparr> minScore = 1, maxScore = 2,
         recommendation = ''Encourage creative expression and imagination'',
         activity = ''Open-ended art and creative projects'',
         resources = [''Art supplies'', ''Creative prompts'', ''Imagination games''] \<rparr>,
       \<lparr> minScore = 2, maxScore = 3,
         recommendation = ''Foster innovative thinking and originality'',
         activity = ''Creative problem-solving challenges'',
         resources = [''Innovation challenges'', ''Creative thinking exercises'', ''Design thinking activities''] \<rparr>
      ])
  ]"

text \<open>
  \<^verbatim>\<open>recommendationMap[alert.category] || []\<close>. The catalog is an object literal, so the
  lookup also finds the properties of \<^verbatim>\<open>Object.prototype\<close>: an own key gives its array of
  rules, a name of \<^const>\<open>objectPrototypeNames\<close> gives the inherited value, which is truthy and
  no array (\<open>None\<close> below), and any other name gives \<^verbatim>\<open>undefined\<close>, for which \<^verbatim>\<open>|| []\<close>
  takes the empty array.
\<close>

definition categoryRecommendations :: "InterventionAlert \<Rightarrow> RecRule list option" where
  "categoryRecommendations alert =
     (case map_of getRecommendationMap (al_category alert) of
        Some rules \<Rightarrow> Some rules
      | None \<Rightarrow> if al_category alert \<in> set objectPrototypeNames then None else Some [])"

text \<open>The object that the inner loop pushes for an alert and a rule.\<close>

definition toRecommendation :: "InterventionAlert \<Rightarrow> RecRule \<Rightarrow> Recommendation" where
  "toRecommendation alert rule =
     \<lparr> rc_studentId = al_studentId alert,
       rc_studentName = al_studentName alert,
       rc_category = al_category alert,
       rc_recommendation = recommendation rule,
       rc_activity = activity rule,
       rc_resources = resources rule,
       rc_priority = al_severity alert \<rparr>"

text \<open>
  The two nested \<^verbatim>\<open>forEach\<close> loops, each threading the array \<^verbatim>\<open>recommendations\<close>; the
  parameter \<open>logs\<close> is not read, as in the source. A value that is no array has no
  \<^verbatim>\<open>forEach\<close>: the call \<^verbatim>\<open>categoryRecommendations.forEach(...)\<close> throws a TypeError, which
  nothing catches, so the function returns nothing.
\<close>

definition pushMatching :: "InterventionAlert \<Rightarrow> Recommendation list \<Rightarrow> RecRule \<Rightarrow> Recommendation list" where
  "pushMatching alert recommendations rule =
     (if al_score alert \<le> maxScore rule \<and> al_score alert \<ge> minScore rule
      then recommendations @ [toRecommendation alert rule]
      else recommendations)"

definition recommendStep ::
  "error + Recommendation list \<Rightarrow> InterventionAlert \<Rightarrow> error + Recommendation list" where
  "recommendStep acc alert =
     (case acc of
        Inl e \<Rightarrow> Inl e
      | Inr recommendations \<Rightarrow>
          (case categoryRecommendations alert of
             None \<Rightarrow> Inl TypeError
           | Some rules \<Rightarrow> Inr (foldl (pushMatching alert) recommendations rules)))"

definition generateRecommendations ::
  "ObservationLog list \<Rightarrow> InterventionAlert list \<Rightarrow> error + Recommendation list" where
  "generateRecommendations logs alerts = foldl recommendStep (Inr []) alerts"

subsection \<open>Specification-side notions and sample inputs\<close>

text \<open>The band of a rule contains the score of an alert, both ends included.\<close>

definition scoreInBand :: "InterventionAlert \<Rightarrow> RecRule \<Rightarrow> bool" where
  "scoreInBand alert rule = (minScore rule \<le> al_score alert \<and> al_score alert \<le> maxScore rule)"

definition exampleAlert :: "string \<Rightarrow> severity \<Rightarrow> real \<Rightarrow> InterventionAlert" where
  "exampleAlert category sev s =
     \<lparr> al_studentId = ''2'', al_studentName = ''Mike Chen'', al_alertType = Threshold,
       al_category = category, al_severity = sev, al_message = '''',
       al_score = s, al_threshold = 5 / 2, al_trend = 0 \<rparr>"

text \<open>
  The records of one student in input order, those of them that carry a category, the
  category's score entries in them, and the array \<^verbatim>\<open>scores\<close> on which
  \<^verbatim>\<open>generateInterventionAlerts\<close> takes its windows for the pair.
\<close>

definition studentLogs :: "ObservationLog list \<Rightarrow> string \<Rightarrow> ObservationLog list" where
  "studentLogs logs sid = filter (\<lambda>lg. log_studentId lg = sid) logs"

definition categoryLogs :: "ObservationLog list \<Rightarrow> string \<Rightarrow> string \<Rightarrow> ObservationLog list" where
  "categoryLogs logs sid category = filter (hasCategory category) (studentLogs logs sid)"

definition scoreEntries :: "ObservationLog list \<Rightarrow> string \<Rightarrow> string \<Rightarrow> CategoryScore list" where
  "scoreEntries logs sid category = concat (map (categoryEntries category) (studentLogs logs sid))"

definition pairScores :: "ObservationLog list \<Rightarrow> string \<Rightarrow> string \<Rightarrow> real list" where
  "pairScores logs sid category = sortedScores (categoryLogs logs sid category) category"

definition recentWindow :: "real list \<Rightarrow> real list" where
  "recentWindow scores = jsSliceFrom scores (- 3)"

definition olderWindow :: "real list \<Rightarrow> real list" where
  "olderWindow scores = jsSlice scores (- 6) (- 3)"

definition mean :: "real list \<Rightarrow> real" where
  "mean xs = sum_list xs / real (length xs)"

text \<open>
  The decline of an array of scores: the mean of its older window minus the mean of its
  recent window, each sum, quotient and the difference being a double, as the code
  computes them.
\<close>

definition declineOf :: "real list \<Rightarrow> real" where
  "declineOf scores = jsSub (jsAverage (olderWindow scores)) (jsAverage (recentWindow scores))"

text \<open>The name that alerts of a student carry: that of the student's first record.\<close>

definition studentNameOf :: "ObservationLog list \<Rightarrow> string \<Rightarrow> string" where
  "studentNameOf logs sid = (case studentLogs logs sid of [] \<Rightarrow> [] | lg0 # _ \<Rightarrow> log_studentName lg0)"

text \<open>The alerts of an output that belong to a pair, and those of them of one type.\<close>

definition alertsOfPair :: "string \<Rightarrow> string \<Rightarrow> InterventionAlert list \<Rightarrow> InterventionAlert list" where
  "alertsOfPair sid category alerts =
     filter (\<lambda>a. al_studentId a = sid \<and> al_category a = category) alerts"

definition alertsOfType ::
  "alertType \<Rightarrow> string \<Rightarrow> string \<Rightarrow> InterventionAlert list \<Rightarrow> InterventionAlert list" where
  "alertsOfType ty sid category alerts =
     filter (\<lambda>a. al_alertType a = ty) (alertsOfPair sid category alerts)"

text \<open>
  What the specification asks for instead: the scores of the pair in the order of their
  records' timestamps. \<open>timeValue\<close> is the local time value of a Date in milliseconds
  (an invalid Date, which has none, is put at 0).
\<close>

fun timeValue :: "jsdate \<Rightarrow> int" where
  "timeValue InvalidDate = 0"
| "timeValue (LocalDate year month dayOfMonth ms) =
     makeDay year month dayOfMonth * 86400000 + int ms"

definition chronologicalScores :: "ObservationLog list \<Rightarrow> string \<Rightarrow> string \<Rightarrow> real list" where
  "chronologicalScores logs sid category =
     map cs_score
       (concat (map (categoryEntries category)
                  (sort_key (\<lambda>lg. timeValue (log_timestamp lg)) (categoryLogs logs sid category))))"

text \<open>
  Sample inputs: a record with given category scores, and a series of records of one
  student for one category, one record a day from 1 January 2024 on, in input order.
  \<open>decimals\<close> reads a list of decimal fractions as the doubles that they denote.
\<close>

definition decimals :: "real list \<Rightarrow> real list" where
  "decimals xs = map roundDouble xs"

definition sampleLog :: "string \<Rightarrow> string \<Rightarrow> jsdate \<Rightarrow> (string \<times> real) list \<Rightarrow> ObservationLog" where
  "sampleLog sid name date scores =
     \<lparr> log_id = '''', log_studentId = sid, log_studentName = name, log_timestamp = date,
       log_observation = '''', log_tags = [],
       log_categories = Some (map (\<lambda>(c, s). \<lparr> cs_category = c, cs_score = s,
                                              cs_isAutoSuggested = False \<rparr>) scores) \<rparr>"

definition seriesLogs :: "string \<Rightarrow> string \<Rightarrow> string \<Rightarrow> real list \<Rightarrow> ObservationLog list" where
  "seriesLogs sid name category scores =
     map (\<lambda>(i, s). sampleLog sid name (LocalDate 2024 0 (Suc i) 0) [(category, s)])
         (enumerate 0 scores)"

text \<open>No rendering of numbers: the messages of the sample alerts leave them out.\<close>

definition noRender :: "real \<Rightarrow> string" where
  "noRender x = []"

text \<open>One record that scores the same category several times.\<close>

definition repeatedLog :: "string \<Rightarrow> string \<Rightarrow> string \<Rightarrow> real list \<Rightarrow> ObservationLog" where
  "repeatedLog sid name category scores =
     sampleLog sid name (LocalDate 2024 0 1 0) (map (\<lambda>s. (category, s)) scores)"

text \<open>
  The week number as the specification words it: the weekday index of the first day of
  the instant's own month, added to the day of the month, over 7, rounded up.
\<close>

definition weekdayOfMonthStart :: "int \<Rightarrow> nat \<Rightarrow> nat" where
  "weekdayOfMonthStart year month = weekDay (makeDay year month 1)"

definition weekOfMonth :: "int \<Rightarrow> nat \<Rightarrow> nat \<Rightarrow> int" where
  "weekOfMonth year month dayOfMonth =
     \<lceil>(real dayOfMonth + real (weekdayOfMonthStart year month)) / 7\<rceil>"

text \<open>
  The common shape of the accumulation loops of the source: make sure that the key has a
  value, then change the value under the key.
  \<^verbatim>\<open>if (!m.has(k)) m.set(k, init); m.set(k, h(m.get(k)))\<close>.
\<close>

definition keyedStep ::
  "('e \<Rightarrow> 'k) \<Rightarrow> ('e \<Rightarrow> 'v \<Rightarrow> 'v) \<Rightarrow> ('e \<Rightarrow> 'v) \<Rightarrow> ('k \<times> 'v) list \<Rightarrow> 'e \<Rightarrow> ('k \<times> 'v) list" where
  "keyedStep kf hf init m e = AList.map_entry (kf e) (hf e) (initKey (kf e) (init e) m)"

text \<open>The category scores of a record, none when the property is absent.\<close>

definition categoriesOf :: "ObservationLog \<Rightarrow> CategoryScore list" where
  "categoriesOf lg = (case log_categories lg of None \<Rightarrow> [] | Some cats \<Rightarrow> cats)"

text \<open>
  The score entries that fall into the bucket \<open>period\<close> under a key function (week or
  month), and the scores among them of one category, both in input order.
\<close>

definition bucketEntries ::
  "(jsdate \<Rightarrow> string) \<Rightarrow> ObservationLog list \<Rightarrow> string \<Rightarrow> CategoryScore list" where
  "bucketEntries key logs period =
     concat (map categoriesOf (filter (\<lambda>lg. key (log_timestamp lg) = period) logs))"

definition bucketScores ::
  "(jsdate \<Rightarrow> string) \<Rightarrow> ObservationLog list \<Rightarrow> string \<Rightarrow> string \<Rightarrow> real list" where
  "bucketScores key logs period category =
     map cs_score (filter (\<lambda>e. cs_category e = category) (bucketEntries key logs period))"

text \<open>
  One of the two maps of \<^verbatim>\<open>calculateTrends\<close>, as an accumulation under the bucket key of
  each record, and the key function that a period string belongs to: a week key carries
  a \<open>W\<close>, a month key does not.
\<close>

definition bucketsBy :: "(jsdate \<Rightarrow> string) \<Rightarrow> ObservationLog list \<Rightarrow> buckets" where
  "bucketsBy key logs =
     foldl (keyedStep (\<lambda>lg. key (log_timestamp lg))
                      (\<lambda>lg obj. foldl addScore obj (categoriesOf lg))
                      (\<lambda>lg. []))
           [] logs"

definition periodKey :: "string \<Rightarrow> jsdate \<Rightarrow> string" where
  "periodKey period = (if CHR ''W'' \<in> set period then getWeekKey else getMonthKey)"

text \<open>
  No category of a record is named like a property of \<^verbatim>\<open>Object.prototype\<close>: the inputs
  on which the calls of \<^verbatim>\<open>calculateTrends\<close> and \<^verbatim>\<open>calculatePeerComparison\<close> return.
\<close>

definition ownNames :: "ObservationLog list \<Rightarrow> bool" where
  "ownNames logs =
     (\<forall>lg \<in> set logs. \<forall>e \<in> set (categoriesOf lg). cs_category e \<notin> set objectPrototypeNames)"

text \<open>
  What the loops maintain: a dictionary of scores has no own property of an inherited
  name, and so have all the dictionaries of a map of buckets or of students.
\<close>

definition objOwn :: "(string \<times> 'v) list \<Rightarrow> bool" where
  "objOwn obj = (\<forall>c \<in> set objectPrototypeNames. map_of obj c = None)"

definition bucketsOwn :: "buckets \<Rightarrow> bool" where
  "bucketsOwn data = (\<forall>e \<in> set data. objOwn (snd e))"

definition studentsOwn :: "(string \<times> StudentData) list \<Rightarrow> bool" where
  "studentsOwn studentMap = (\<forall>e \<in> set studentMap. objOwn (sd_scores (snd e)))"

text \<open>A record without the \<^verbatim>\<open>categories\<close> property.\<close>

definition bareLog :: "string \<Rightarrow> string \<Rightarrow> jsdate \<Rightarrow> ObservationLog" where
  "bareLog sid name date =
     \<lparr> log_id = '''', log_studentId = sid, log_studentName = name, log_timestamp = date,
       log_observation = '''', log_tags = [], log_categories = None \<rparr>"

text \<open>
  Sample inputs of the trend aggregation: two records of the first week of January 2024,
  one with three category scores and one with one; and two records without scores, one
  with no \<^verbatim>\<open>categories\<close> property and one with an empty array.
\<close>

definition trendSample :: "ObservationLog list" where
  "trendSample =
     [sampleLog ''1'' ''Sarah Johnson'' (LocalDate 2024 0 1 0)
        [(''Creativity'', 2), (''Creativity'', 4), (''Communication'', 5)],
      sampleLog ''3'' ''Emma Davis'' (LocalDate 2024 0 2 0) [(''Creativity'', 5)]]"

definition emptySample :: "ObservationLog list" where
  "emptySample =
     [bareLog ''1'' ''Sarah Johnson'' (LocalDate 2024 0 1 0),
      sampleLog ''3'' ''Emma Davis'' (LocalDate 2024 1 5 0) []]"


text \<open>
  The percentile that the loop gives a student for a category from the averages of the
  array \<^verbatim>\<open>studentAverages\<close>, and the index of the first score of a list that is at least a
  given score.
\<close>

definition pctOf :: "PeerComparison list \<Rightarrow> string \<Rightarrow> PeerComparison \<Rightarrow> int" where
  "pctOf studentAverages category student =
     (case positiveAverage student category of
        Some score \<Rightarrow> percentileOf (cohortScores studentAverages category) score
      | None \<Rightarrow> 0)"


text \<open>The average of a student in a category as the records give it, if the student has a
  score entry for the category.\<close>

definition studentAverage :: "ObservationLog list \<Rightarrow> string \<Rightarrow> string \<Rightarrow> real option" where
  "studentAverage logs sid category =
     (if scoreEntries logs sid category = [] then None
      else Some (mean (map cs_score (scoreEntries logs sid category))))"

text \<open>
  The average of a student in a category as the code computes it from the records, each
  sum and the quotient being a double.
\<close>

definition averageOfStudent :: "ObservationLog list \<Rightarrow> string \<Rightarrow> string \<Rightarrow> real option" where
  "averageOfStudent logs sid category =
     (if scoreEntries logs sid category = [] then None
      else Some (jsAverage (map cs_score (scoreEntries logs sid category))))"




text \<open>
  A cohort of three students: Sarah and Mike both average 3 in \<open>Creativity\<close>, Emma averages
  4; only Mike has a score in \<open>Communication\<close>.
\<close>

definition peerSample :: "ObservationLog list" where
  "peerSample =
     [sampleLog ''1'' ''Sarah Johnson'' (LocalDate 2024 0 1 0) [(''Creativity'', 3)],
      sampleLog ''2'' ''Mike Chen'' (LocalDate 2024 0 1 0) [(''Creativity'', 3), (''Communication'', 2)],
      sampleLog ''3'' ''Emma Davis'' (LocalDate 2024 0 1 0) [(''Creativity'', 4)]]"

definition peerSarah :: PeerComparison where
  "peerSarah =
     \<lparr> pc_studentId = ''1'', pc_studentName = ''Sarah Johnson'',
       pc_categoryAverages = [(''Creativity'', 3)],
       pc_percentile = [(''Cognitive Skills'', 0), (''Social Skills'', 0),
                        (''Emotional Readiness'', 0), (''Communication'', 0), (''Creativity'', 33)],
       pc_overallPercentile = 33 \<rparr>"

definition peerMike :: PeerComparison where
  "peerMike =
     \<lparr> pc_studentId = ''2'', pc_studentName = ''Mike Chen'',
       pc_categoryAverages = [(''Creativity'', 3), (''Communication'', 2)],
       pc_percentile = [(''Cognitive Skills'', 0), (''Social Skills'', 0),
                        (''Emotional Readiness'', 0), (''Communication'', 100), (''Creativity'', 33)],
       pc_overallPercentile = 67 \<rparr>"

definition peerEmma :: PeerComparison where
  "peerEmma =
     \<lparr> pc_studentId = ''3'', pc_studentName = ''Emma Davis'',
       pc_categoryAverages = [(''Creativity'', 4)],
       pc_percentile = [(''Cognitive Skills'', 0), (''Social Skills'', 0),
                        (''Emotional Readiness'', 0), (''Communication'', 0), (''Creativity'', 100)],
       pc_overallPercentile = 100 \<rparr>"


section \<open>Verification\<close>

subsection \<open>Evaluation of doubles\<close>

lemmas double_eval =
  jsAdd_def jsSub_def jsMul_def jsDiv_def roundDouble_def binade_def binadeAux.simps pow2_def
  roundHalfEven_def Let_def

lemma pow2_pos: "0 < pow2 k"
  by (simp add: pow2_def)

lemma roundHalfEven_nonneg: "0 \<le> y \<Longrightarrow> 0 \<le> roundHalfEven y"
  by (simp add: roundHalfEven_def Let_def)

lemma roundDouble_nonneg: "0 \<le> x \<Longrightarrow> 0 \<le> roundDouble x"
  by (simp add: roundDouble_def Let_def roundHalfEven_nonneg pow2_pos less_imp_le)

subsection \<open>Recommendations\<close>

lemma foldl_pushMatching:
  "foldl (pushMatching alert) acc rules =
     acc @ map (toRecommendation alert) (filter (scoreInBand alert) rules)"
  by (induction rules arbitrary: acc) (auto simp: pushMatching_def scoreInBand_def)

lemma recommendStep_Inl: "recommendStep (Inl e) alert = Inl e"
  by (simp add: recommendStep_def)

lemma recommendStep_Inr:
  "recommendStep (Inr acc) alert =
     (case categoryRecommendations alert of
        None \<Rightarrow> Inl TypeError
      | Some rules \<Rightarrow> Inr (foldl (pushMatching alert) acc rules))"
  by (simp add: recommendStep_def)

lemma foldl_recommendStep_error: "foldl recommendStep (Inl e) alerts = Inl e"
  by (induction alerts) (simp_all add: recommendStep_Inl)

lemma foldl_recommendStep:
  "foldl recommendStep (Inr acc) alerts =
     (if \<exists>alert \<in> set alerts. categoryRecommendations alert = None then Inl TypeError
      else Inr (acc @ concat (map (\<lambda>alert. map (toRecommendation alert)
                          (filter (scoreInBand alert) (the (categoryRecommendations alert)))) alerts)))"
proof (induction alerts arbitrary: acc)
  case Nil
  show ?case by simp
next
  case (Cons alert alerts)
  show ?case
  proof (cases "categoryRecommendations alert")
    case None
    then show ?thesis by (simp add: recommendStep_Inr foldl_recommendStep_error)
  next
    case (Some rules)
    then show ?thesis by (simp add: recommendStep_Inr Cons.IH foldl_pushMatching)
  qed
qed

text \<open>
  Where no alert names an inherited property, the function emits, alert by alert and rule
  by rule in catalog order, one recommendation for each rule of the alert's category whose
  band contains the alert's score, both ends included; a category that is no key of the
  catalog gives none.
\<close>

lemma categoryRecommendations_own:
  "al_category alert \<notin> set objectPrototypeNames \<Longrightarrow>
   categoryRecommendations alert =
     Some (case map_of getRecommendationMap (al_category alert) of None \<Rightarrow> [] | Some rules \<Rightarrow> rules)"
  by (simp add: categoryRecommendations_def split: option.splits)

lemma generateRecommendations_per_band:
  assumes "\<forall>alert \<in> set alerts. al_category alert \<notin> set objectPrototypeNames"
  shows "generateRecommendations logs alerts =
     Inr (concat (map (\<lambda>alert. map (toRecommendation alert)
                     (filter (scoreInBand alert)
                        (case map_of getRecommendationMap (al_category alert) of
                           None \<Rightarrow> [] | Some rules \<Rightarrow> rules))) alerts))"
proof -
  have returns: "\<not> (\<exists>alert \<in> set alerts. categoryRecommendations alert = None)"
    using assms by (auto simp: categoryRecommendations_own)
  have rules: "map (\<lambda>alert. map (toRecommendation alert)
                     (filter (scoreInBand alert) (the (categoryRecommendations alert)))) alerts
      = map (\<lambda>alert. map (toRecommendation alert)
                     (filter (scoreInBand alert)
                        (case map_of getRecommendationMap (al_category alert) of
                           None \<Rightarrow> [] | Some rules \<Rightarrow> rules))) alerts"
    using assms by (intro map_cong refl) (simp add: categoryRecommendations_own)
  show ?thesis
    by (simp only: generateRecommendations_def foldl_recommendStep returns rules if_False append_Nil)
qed

text \<open>
  C6. The specification promises no recommendations for an alert whose category has no
  catalog entry, and the source writes \<^verbatim>\<open>recommendationMap[alert.category] || []\<close> to that
  end. For the category \<^verbatim>\<open>constructor\<close>, which is no key of the catalog, the lookup finds
  the property that the catalog object inherits, \<^verbatim>\<open>|| []\<close> keeps it, and the call of its
  \<^verbatim>\<open>forEach\<close> throws: the function returns no array at all, also when other alerts of the
  same call match a band. A category such as \<open>Motor Skills\<close>, which is no inherited name
  either, gets the empty result, and an alert with score 2 in \<open>Cognitive Skills\<close> gets the
  two recommendations of the bands \<open>[1, 2]\<close> and \<open>[2, 3]\<close>, both of its own priority.
\<close>

theorem generateRecommendations_throws_on_inherited_name:
  "map_of getRecommendationMap ''constructor'' = None
   \<and> generateRecommendations [] [exampleAlert ''constructor'' Low 2] = Inl TypeError
   \<and> generateRecommendations []
        [exampleAlert ''Cognitive Skills'' High 2, exampleAlert ''constructor'' Low 2] = Inl TypeError
   \<and> generateRecommendations [] [exampleAlert ''Motor Skills'' Low 2] = Inr []
   \<and> map_sum id (map rc_priority)
        (generateRecommendations [] [exampleAlert ''Cognitive Skills'' High 2]) = Inr [High, High]"
  by (simp add: generateRecommendations_def recommendStep_def categoryRecommendations_def
        exampleAlert_def getRecommendationMap_def objectPrototypeNames_def pushMatching_def
        toRecommendation_def)

subsection \<open>Association lists as maps\<close>

lemma map_of_initKey:
  "map_of (initKey k v m) k' = (if k' = k \<and> map_of m k = None then Some v else map_of m k')"
  by (simp add: initKey_def update_conv')

lemma distinct_initKey: "distinct (map fst m) \<Longrightarrow> distinct (map fst (initKey k v m))"
  by (simp add: initKey_def distinct_update)

lemma filter_concat_assoc:
  assumes "distinct (map fst xs)"
    and "\<And>k v a. (k, v) \<in> set xs \<Longrightarrow> a \<in> set (f (k, v)) \<Longrightarrow> key a = k"
  shows "filter (\<lambda>a. key a = k0) (concat (map f xs)) =
           (case map_of xs k0 of None \<Rightarrow> [] | Some v \<Rightarrow> f (k0, v))"
  using assms
proof (induction xs)
  case Nil
  then show ?case by simp
next
  case (Cons e xs)
  obtain k v where e: "e = (k, v)" by (cases e)
  have key_e: "\<And>a. a \<in> set (f (k, v)) \<Longrightarrow> key a = k"
    using Cons.prems(2) [of k v] e by simp
  have ih: "filter (\<lambda>a. key a = k0) (concat (map f xs)) =
           (case map_of xs k0 of None \<Rightarrow> [] | Some v \<Rightarrow> f (k0, v))"
  proof (rule Cons.IH)
    show "distinct (map fst xs)" using Cons.prems(1) by simp
    show "\<And>k v a. (k, v) \<in> set xs \<Longrightarrow> a \<in> set (f (k, v)) \<Longrightarrow> key a = k"
      using Cons.prems(2) by (meson list.set_intros(2))
  qed
  show ?case
  proof (cases "k = k0")
    case True
    have "map_of xs k0 = None"
      using Cons.prems(1) e True by (simp add: map_of_eq_None_iff)
    moreover have "filter (\<lambda>a. key a = k0) (f (k, v)) = f (k, v)"
      using key_e True by (simp add: filter_id_conv)
    ultimately show ?thesis using ih e True by simp
  next
    case False
    have "filter (\<lambda>a. key a = k0) (f (k, v)) = []"
      using key_e False by (auto simp: filter_empty_conv)
    then show ?thesis using ih e False by simp
  qed
qed

lemma filter_concat_keys:
  assumes "distinct ks"
    and "\<And>k a. k \<in> set ks \<Longrightarrow> a \<in> set (g k) \<Longrightarrow> key a = k"
  shows "filter (\<lambda>a. key a = k0) (concat (map g ks)) = (if k0 \<in> set ks then g k0 else [])"
  using assms
proof (induction ks)
  case Nil
  then show ?case by simp
next
  case (Cons k ks)
  have key_k: "\<And>a. a \<in> set (g k) \<Longrightarrow> key a = k"
    using Cons.prems(2) by simp
  have ih: "filter (\<lambda>a. key a = k0) (concat (map g ks)) = (if k0 \<in> set ks then g k0 else [])"
  proof (rule Cons.IH)
    show "distinct ks" using Cons.prems(1) by simp
    show "\<And>k a. k \<in> set ks \<Longrightarrow> a \<in> set (g k) \<Longrightarrow> key a = k"
      using Cons.prems(2) by (meson list.set_intros(2))
  qed
  show ?case
  proof (cases "k = k0")
    case True
    have "filter (\<lambda>a. key a = k0) (g k) = g k"
      using key_k True by (simp add: filter_id_conv)
    moreover have "k0 \<notin> set ks" using Cons.prems(1) True by simp
    ultimately show ?thesis using ih True by simp
  next
    case False
    have "filter (\<lambda>a. key a = k0) (g k) = []"
      using key_k False by (auto simp: filter_empty_conv)
    then show ?thesis using ih False by auto
  qed
qed

subsection \<open>Grouping the records by student\<close>

lemma map_of_groupStep:
  "map_of (groupStep m lg) k =
     (if k = log_studentId lg
      then Some ((case map_of m k of None \<Rightarrow> [] | Some arr \<Rightarrow> arr) @ [lg])
      else map_of m k)"
  by (auto simp: groupStep_def map_of_map_entry map_of_initKey split: option.splits)

lemma distinct_groupStep: "distinct (map fst m) \<Longrightarrow> distinct (map fst (groupStep m lg))"
  by (simp add: groupStep_def distinct_map_entry distinct_initKey)

lemma foldl_groupStep:
  "distinct (map fst m) \<Longrightarrow>
   distinct (map fst (foldl groupStep m logs)) \<and>
   map_of (foldl groupStep m logs) k =
     (case map_of m k of
        None \<Rightarrow> (if studentLogs logs k = [] then None else Some (studentLogs logs k))
      | Some arr \<Rightarrow> Some (arr @ studentLogs logs k))"
proof (induction logs arbitrary: m)
  case Nil
  then show ?case by (simp add: studentLogs_def split: option.splits)
next
  case (Cons lg logs)
  have d: "distinct (map fst (groupStep m lg))"
    using Cons.prems by (rule distinct_groupStep)
  show ?case
    using Cons.IH [OF d]
    by (auto simp: map_of_groupStep studentLogs_def split: option.splits)
qed

lemma groupStep_grouped:
  "distinct (map fst (foldl groupStep [] logs))"
  "map_of (foldl groupStep [] logs) k =
     (if studentLogs logs k = [] then None else Some (studentLogs logs k))"
  using foldl_groupStep [of "[]" logs k] by simp_all

lemma groupStep_entries:
  assumes "(k, v) \<in> set (foldl groupStep [] logs)"
  shows "v = studentLogs logs k" "v \<noteq> []"
proof -
  have "map_of (foldl groupStep [] logs) k = Some v"
    using assms groupStep_grouped(1) by simp
  then show "v = studentLogs logs k" "v \<noteq> []"
    by (auto simp: groupStep_grouped(2) split: if_splits)
qed

subsection \<open>The alerts of one pair\<close>

lemma distinct_categories: "distinct categories"
  by (simp add: categories_def)

lemma sort_key_short: "length xs \<le> 1 \<Longrightarrow> sort_key f xs = xs"
  by (cases xs) simp_all

lemma declineAlerts_keys:
  "a \<in> set (declineAlerts toFixed1 sid name category scores) \<Longrightarrow>
     al_studentId a = sid \<and> al_category a = category \<and> al_alertType a = Decline"
  by (auto simp: declineAlerts_def Let_def split: if_splits)

lemma thresholdAlerts_keys:
  "a \<in> set (thresholdAlerts numToString sid name category scores) \<Longrightarrow>
     al_studentId a = sid \<and> al_category a = category \<and> al_alertType a = Threshold"
  by (auto simp: thresholdAlerts_def Let_def split: if_splits)

lemma length_declineAlerts: "length (declineAlerts toFixed1 sid name category scores) \<le> 1"
  by (simp add: declineAlerts_def Let_def)

lemma length_thresholdAlerts: "length (thresholdAlerts numToString sid name category scores) \<le> 1"
  by (simp add: thresholdAlerts_def Let_def)

lemma sort_key_declineAlerts:
  "sort_key f (declineAlerts toFixed1 sid name category scores) =
     declineAlerts toFixed1 sid name category scores"
  by (rule sort_key_short) (rule length_declineAlerts)

lemma sort_key_thresholdAlerts:
  "sort_key f (thresholdAlerts numToString sid name category scores) =
     thresholdAlerts numToString sid name category scores"
  by (rule sort_key_short) (rule length_thresholdAlerts)

lemma pairAlerts_keys:
  "a \<in> set (pairAlerts toFixed1 numToString sid name slogs category) \<Longrightarrow>
     al_studentId a = sid \<and> al_category a = category"
  by (auto simp: pairAlerts_def Let_def split: if_splits
           dest: declineAlerts_keys thresholdAlerts_keys)

lemma studentAlerts_keys:
  "a \<in> set (studentAlerts toFixed1 numToString (k, v)) \<Longrightarrow> al_studentId a = k"
  by (auto simp: studentAlerts_def split: list.splits dest: pairAlerts_keys)

lemma pairAlerts_no_logs: "pairAlerts toFixed1 numToString sid name [] category = []"
  by (simp add: pairAlerts_def)

lemma alerts_of_student:
  "filter (\<lambda>a. al_studentId a = sid)
     (concat (map (studentAlerts toFixed1 numToString) (foldl groupStep [] logs))) =
   concat (map (pairAlerts toFixed1 numToString sid (studentNameOf logs sid) (studentLogs logs sid))
               categories)"
proof -
  have "filter (\<lambda>a. al_studentId a = sid)
          (concat (map (studentAlerts toFixed1 numToString) (foldl groupStep [] logs))) =
        (case map_of (foldl groupStep [] logs) sid of
           None \<Rightarrow> []
         | Some v \<Rightarrow> studentAlerts toFixed1 numToString (sid, v))"
    by (rule filter_concat_assoc) (auto simp: groupStep_grouped(1) dest: studentAlerts_keys)
  also have "\<dots> = concat (map (pairAlerts toFixed1 numToString sid (studentNameOf logs sid)
                                  (studentLogs logs sid)) categories)"
    by (cases "studentLogs logs sid")
       (simp_all add: groupStep_grouped(2) studentAlerts_def studentNameOf_def pairAlerts_no_logs)
  finally show ?thesis .
qed

lemma alerts_of_pair_unsorted:
  "filter (\<lambda>a. al_category a = category)
     (concat (map (pairAlerts toFixed1 numToString sid name slogs) categories)) =
   (if category \<in> set categories
    then pairAlerts toFixed1 numToString sid name slogs category else [])"
  by (rule filter_concat_keys) (auto simp: distinct_categories dest: pairAlerts_keys)

lemma alertsOfPair_generate:
  "alertsOfPair sid category (generateInterventionAlerts toFixed1 numToString logs) =
     sort_key (\<lambda>a. - severityOrder (al_severity a))
       (if category \<in> set categories
        then pairAlerts toFixed1 numToString sid (studentNameOf logs sid) (studentLogs logs sid) category
        else [])"
proof -
  have "alertsOfPair sid category (generateInterventionAlerts toFixed1 numToString logs) =
        sort_key (\<lambda>a. - severityOrder (al_severity a))
          (filter (\<lambda>a. al_category a = category)
             (filter (\<lambda>a. al_studentId a = sid)
                (concat (map (studentAlerts toFixed1 numToString) (foldl groupStep [] logs)))))"
    by (simp add: alertsOfPair_def generateInterventionAlerts_def filter_sort conj_commute)
  then show ?thesis
    by (simp only: alerts_of_student alerts_of_pair_unsorted)
qed

lemma alertsOfType_Decline:
  "alertsOfType Decline sid category (generateInterventionAlerts toFixed1 numToString logs) =
     (if category \<in> set categories \<and> 3 \<le> length (categoryLogs logs sid category)
      then declineAlerts toFixed1 sid (studentNameOf logs sid) category (pairScores logs sid category)
      else [])"
proof -
  have d: "filter (\<lambda>a. al_alertType a = Decline) (declineAlerts toFixed1 sid name category scores)
             = declineAlerts toFixed1 sid name category scores" for name scores
    by (simp add: filter_id_conv declineAlerts_keys)
  have t: "filter (\<lambda>a. al_alertType a = Decline) (thresholdAlerts numToString sid name category scores)
             = []" for name scores
    by (auto simp: filter_empty_conv dest: thresholdAlerts_keys)
  show ?thesis
    by (simp add: alertsOfType_def alertsOfPair_generate filter_sort pairAlerts_def Let_def
          categoryLogs_def pairScores_def d t sort_key_declineAlerts)
qed

lemma alertsOfType_Threshold:
  "alertsOfType Threshold sid category (generateInterventionAlerts toFixed1 numToString logs) =
     (if category \<in> set categories \<and> 3 \<le> length (categoryLogs logs sid category)
      then thresholdAlerts numToString sid (studentNameOf logs sid) category (pairScores logs sid category)
      else [])"
proof -
  have d: "filter (\<lambda>a. al_alertType a = Threshold) (declineAlerts toFixed1 sid name category scores)
             = []" for name scores
    by (auto simp: filter_empty_conv dest: declineAlerts_keys)
  have t: "filter (\<lambda>a. al_alertType a = Threshold) (thresholdAlerts numToString sid name category scores)
             = thresholdAlerts numToString sid name category scores" for name scores
    by (simp add: filter_id_conv thresholdAlerts_keys)
  show ?thesis
    by (simp add: alertsOfType_def alertsOfPair_generate filter_sort pairAlerts_def Let_def
          categoryLogs_def pairScores_def d t sort_key_thresholdAlerts)
qed

lemma alertsOfPair_below_gate:
  "length (categoryLogs logs sid category) < 3 \<Longrightarrow>
   alertsOfPair sid category (generateInterventionAlerts toFixed1 numToString logs) = []"
  by (simp add: alertsOfPair_generate pairAlerts_def categoryLogs_def)

lemma hasCategory_entries: "hasCategory category lg \<Longrightarrow> categoryEntries category lg \<noteq> []"
  by (auto simp: hasCategory_def categoryEntries_def list_ex_iff filter_empty_conv
           split: option.splits)

lemma entries_hasCategory: "\<not> hasCategory category lg \<Longrightarrow> categoryEntries category lg = []"
  by (auto simp: hasCategory_def categoryEntries_def list_ex_iff filter_empty_conv
           split: option.splits)

lemma length_filter_le_entries:
  "length (filter (hasCategory category) xs) \<le> length (concat (map (categoryEntries category) xs))"
proof (induction xs)
  case Nil
  then show ?case by simp
next
  case (Cons lg xs)
  have "hasCategory category lg \<Longrightarrow> 1 \<le> length (categoryEntries category lg)"
    using hasCategory_entries [of category lg] by (cases "categoryEntries category lg") simp_all
  then show ?case using Cons.IH by auto
qed

lemma entries_of_categoryLogs:
  "concat (map (categoryEntries category) (filter (hasCategory category) xs)) =
   concat (map (categoryEntries category) xs)"
  by (induction xs) (simp_all add: entries_hasCategory)

lemma categoryLogs_le_scoreEntries:
  "length (categoryLogs logs sid category) \<le> length (scoreEntries logs sid category)"
  by (simp add: categoryLogs_def scoreEntries_def length_filter_le_entries)

lemma length_pairScores:
  "length (pairScores logs sid category) = length (scoreEntries logs sid category)"
  by (simp add: pairScores_def sortedScores_def categoryLogs_def scoreEntries_def
        entries_of_categoryLogs)

lemma foldl_plus_sum_list: "foldl (+) a xs = a + sum_list xs" for a :: "'a::comm_monoid_add"
  by (induction xs arbitrary: a) (simp_all add: add.assoc)

lemma average_mean: "average xs = mean xs"
  by (simp add: average_def mean_def foldl_plus_sum_list)

subsection \<open>Windows and ordering of the scores\<close>

lemma olderWindow_nonempty: "olderWindow scores \<noteq> [] \<Longrightarrow> 3 \<le> length scores"
  by (auto simp: olderWindow_def jsSlice_def sliceIndex_def Let_def split: if_splits)

text \<open>
  C1. The specification orders the scores of a pair by the timestamps of their records
  before it takes the windows and the current score. The code sorts the scores
  themselves, by their integer parts. On three records of 1, 2 and 3 January 2024 with
  scores 3, 2, 1 the chronological sequence is 3, 2, 1 and its last score 1 is below
  2.5, but the array the code reads is 1, 2, 3 and no alert comes out; on Jordan Smith's
  series of the demo data the chronological windows decline by 0.6, the windows of the
  code by 0.2, and again no alert comes out.
\<close>

theorem scores_sorted_by_value_not_by_time:
  "chronologicalScores (seriesLogs ''2'' ''Mike Chen'' ''Cognitive Skills'' [3, 2, 1])
       ''2'' ''Cognitive Skills'' = [3, 2, 1]
   \<and> pairScores (seriesLogs ''2'' ''Mike Chen'' ''Cognitive Skills'' [3, 2, 1])
       ''2'' ''Cognitive Skills'' = [1, 2, 3]
   \<and> generateInterventionAlerts noRender noRender
       (seriesLogs ''2'' ''Mike Chen'' ''Cognitive Skills'' [3, 2, 1]) = []
   \<and> chronologicalScores
       (seriesLogs ''5'' ''Jordan Smith'' ''Cognitive Skills'' [38 / 10, 36 / 10, 34 / 10, 32 / 10, 30 / 10, 28 / 10])
       ''5'' ''Cognitive Skills'' = [38 / 10, 36 / 10, 34 / 10, 32 / 10, 30 / 10, 28 / 10]
   \<and> mean (olderWindow [38 / 10, 36 / 10, 34 / 10, 32 / 10, 30 / 10, 28 / 10])
       - mean (recentWindow [38 / 10, 36 / 10, 34 / 10, 32 / 10, 30 / 10, 28 / 10]) = 6 / 10
   \<and> pairScores
       (seriesLogs ''5'' ''Jordan Smith'' ''Cognitive Skills'' [38 / 10, 36 / 10, 34 / 10, 32 / 10, 30 / 10, 28 / 10])
       ''5'' ''Cognitive Skills'' = [28 / 10, 38 / 10, 36 / 10, 34 / 10, 32 / 10, 30 / 10]
   \<and> mean (olderWindow [28 / 10, 38 / 10, 36 / 10, 34 / 10, 32 / 10, 30 / 10])
       - mean (recentWindow [28 / 10, 38 / 10, 36 / 10, 34 / 10, 32 / 10, 30 / 10]) = 2 / 10
   \<and> generateInterventionAlerts noRender noRender
       (seriesLogs ''5'' ''Jordan Smith'' ''Cognitive Skills'' [38 / 10, 36 / 10, 34 / 10, 32 / 10, 30 / 10, 28 / 10]) = []"
  by code_simp

subsection \<open>Decline alerts\<close>

text \<open>
  C2, as the code has it. For a canonical category and a student with at least three
  records that carry the category, when the older window (the up to three scores before
  the last three of the array the function windows over) is not empty, the output holds
  a decline alert for the pair if and only if the decline, the mean of the older window
  minus the mean of the recent window as doubles, exceeds 0.5; there is then exactly one,
  of severity high above 1, medium above 0.7 and low otherwise, with score the recent
  mean, threshold the older mean and trend the decline. A decline of exactly 0.5 gives no
  alert, one above 0.5 and up to 0.7 a low alert.
\<close>

theorem decline_alert_iff:
  assumes "category \<in> set categories"
    and "3 \<le> length (categoryLogs logs sid category)"
    and "olderWindow (pairScores logs sid category) \<noteq> []"
  shows "alertsOfType Decline sid category (generateInterventionAlerts toFixed1 numToString logs) =
     (let decline = declineOf (pairScores logs sid category)
      in if decline > 1 / 2 then
           [\<lparr> al_studentId = sid,
              al_studentName = studentNameOf logs sid,
              al_alertType = Decline,
              al_category = category,
              al_severity =
                (if decline > 1 then High
                 else if decline > roundDouble (7 / 10) then Medium else Low),
              al_message = category @ '' scores have declined by '' @ toFixed1 decline @ '' points'',
              al_score = jsAverage (recentWindow (pairScores logs sid category)),
              al_threshold = jsAverage (olderWindow (pairScores logs sid category)),
              al_trend = decline \<rparr>]
         else [])
   \<and> (declineOf (pairScores logs sid category) = 1 / 2
        \<longrightarrow> alertsOfType Decline sid category
              (generateInterventionAlerts toFixed1 numToString logs) = [])
   \<and> (1 / 2 < declineOf (pairScores logs sid category)
        \<and> declineOf (pairScores logs sid category) \<le> roundDouble (7 / 10)
        \<longrightarrow> map al_severity (alertsOfType Decline sid category
              (generateInterventionAlerts toFixed1 numToString logs)) = [Low])"
proof -
  have len: "3 \<le> length (pairScores logs sid category)"
    using assms(3) by (rule olderWindow_nonempty)
  have older: "0 < length (jsSlice (pairScores logs sid category) (- 6) (- 3))"
    using assms(3) by (simp add: olderWindow_def)
  have low: "roundDouble (7 / 10) < 1"
    by (simp add: double_eval)
  have eq: "alertsOfType Decline sid category (generateInterventionAlerts toFixed1 numToString logs) =
     (let decline = declineOf (pairScores logs sid category)
      in if decline > 1 / 2 then
           [\<lparr> al_studentId = sid,
              al_studentName = studentNameOf logs sid,
              al_alertType = Decline,
              al_category = category,
              al_severity =
                (if decline > 1 then High
                 else if decline > roundDouble (7 / 10) then Medium else Low),
              al_message = category @ '' scores have declined by '' @ toFixed1 decline @ '' points'',
              al_score = jsAverage (recentWindow (pairScores logs sid category)),
              al_threshold = jsAverage (olderWindow (pairScores logs sid category)),
              al_trend = decline \<rparr>]
         else [])"
    using assms(1,2) len older
    by (simp add: alertsOfType_Decline declineAlerts_def Let_def olderWindow_def recentWindow_def
          declineOf_def declineSeverity_def)
  show ?thesis
    unfolding eq using low by (auto simp: Let_def)
qed

text \<open>
  Series of six records of Jordan Smith for \<open>Creativity\<close>.
  \<^item> 3.5, 3.5, 3.5, 3, 3, 3: the decline is exactly 0.5 and no decline alert comes out.
  \<^item> 2.7, 2.7, 2.7, 2.2, 2.2, 2.2: the means are the doubles 2.7000000000000006 and 2.2, the
    decline is the double 0.5000000000000004, and a low alert comes out.
  \<^item> 3.9, 3.9, 3.9, 3.1, 3.1, 3.1: the decline is the double 0.7999999999999998, a medium
    alert.
\<close>

theorem decline_alert_iff_witness:
  "''Creativity'' \<in> set categories
   \<and> 3 \<le> length (categoryLogs
          (seriesLogs ''5'' ''Jordan Smith'' ''Creativity'' (decimals [35 / 10, 35 / 10, 35 / 10, 3, 3, 3]))
          ''5'' ''Creativity'')
   \<and> length (olderWindow (pairScores
          (seriesLogs ''5'' ''Jordan Smith'' ''Creativity'' (decimals [35 / 10, 35 / 10, 35 / 10, 3, 3, 3]))
          ''5'' ''Creativity'')) = 3
   \<and> declineOf (pairScores
          (seriesLogs ''5'' ''Jordan Smith'' ''Creativity'' (decimals [35 / 10, 35 / 10, 35 / 10, 3, 3, 3]))
          ''5'' ''Creativity'') = 1 / 2
   \<and> alertsOfType Decline ''5'' ''Creativity''
        (generateInterventionAlerts noRender noRender
          (seriesLogs ''5'' ''Jordan Smith'' ''Creativity'' (decimals [35 / 10, 35 / 10, 35 / 10, 3, 3, 3]))) = []
   \<and> 3 \<le> length (categoryLogs
          (seriesLogs ''5'' ''Jordan Smith'' ''Creativity'' (decimals [27 / 10, 27 / 10, 27 / 10, 22 / 10, 22 / 10, 22 / 10]))
          ''5'' ''Creativity'')
   \<and> length (olderWindow (pairScores
          (seriesLogs ''5'' ''Jordan Smith'' ''Creativity'' (decimals [27 / 10, 27 / 10, 27 / 10, 22 / 10, 22 / 10, 22 / 10]))
          ''5'' ''Creativity'')) = 3
   \<and> declineOf (pairScores
          (seriesLogs ''5'' ''Jordan Smith'' ''Creativity'' (decimals [27 / 10, 27 / 10, 27 / 10, 22 / 10, 22 / 10, 22 / 10]))
          ''5'' ''Creativity'') = 1125899906842625 / 2251799813685248
   \<and> alertsOfType Decline ''5'' ''Creativity''
        (generateInterventionAlerts noRender noRender
          (seriesLogs ''5'' ''Jordan Smith'' ''Creativity'' (decimals [27 / 10, 27 / 10, 27 / 10, 22 / 10, 22 / 10, 22 / 10]))) =
       [\<lparr> al_studentId = ''5'', al_studentName = ''Jordan Smith'', al_alertType = Decline,
          al_category = ''Creativity'', al_severity = Low,
          al_message = ''Creativity scores have declined by  points'',
          al_score = 2476979795053773 / 1125899906842624,
          al_threshold = 6079859496950171 / 2251799813685248,
          al_trend = 1125899906842625 / 2251799813685248 \<rparr>]
   \<and> 3 \<le> length (categoryLogs
          (seriesLogs ''5'' ''Jordan Smith'' ''Creativity'' (decimals [39 / 10, 39 / 10, 39 / 10, 31 / 10, 31 / 10, 31 / 10]))
          ''5'' ''Creativity'')
   \<and> length (olderWindow (pairScores
          (seriesLogs ''5'' ''Jordan Smith'' ''Creativity'' (decimals [39 / 10, 39 / 10, 39 / 10, 31 / 10, 31 / 10, 31 / 10]))
          ''5'' ''Creativity'')) = 3
   \<and> declineOf (pairScores
          (seriesLogs ''5'' ''Jordan Smith'' ''Creativity'' (decimals [39 / 10, 39 / 10, 39 / 10, 31 / 10, 31 / 10, 31 / 10]))
          ''5'' ''Creativity'') = 900719925474099 / 1125899906842624
   \<and> map al_severity (alertsOfType Decline ''5'' ''Creativity''
        (generateInterventionAlerts noRender noRender
          (seriesLogs ''5'' ''Jordan Smith'' ''Creativity'' (decimals [39 / 10, 39 / 10, 39 / 10, 31 / 10, 31 / 10, 31 / 10])))) = [Medium]"
proof -
  let ?xa = "[7 / 2, 7 / 2, 7 / 2, 3, 3, 3] :: real list"
  let ?xb = "[3039929748475085 / 1125899906842624, 3039929748475085 / 1125899906842624,
              3039929748475085 / 1125899906842624, 2476979795053773 / 1125899906842624,
              2476979795053773 / 1125899906842624, 2476979795053773 / 1125899906842624] :: real list"
  let ?xd = "[8782019273372467 / 2251799813685248, 8782019273372467 / 2251799813685248,
              8782019273372467 / 2251799813685248, 6980579422424269 / 2251799813685248,
              6980579422424269 / 2251799813685248, 6980579422424269 / 2251799813685248] :: real list"
  let ?a = "seriesLogs ''5'' ''Jordan Smith'' ''Creativity'' ?xa"
  let ?b = "seriesLogs ''5'' ''Jordan Smith'' ''Creativity'' ?xb"
  let ?d = "seriesLogs ''5'' ''Jordan Smith'' ''Creativity'' ?xd"
  have deca: "decimals [35 / 10, 35 / 10, 35 / 10, 3, 3, 3] = ?xa"
    by (simp add: decimals_def double_eval)
  have decb: "decimals [27 / 10, 27 / 10, 27 / 10, 22 / 10, 22 / 10, 22 / 10] = ?xb"
    by (simp add: decimals_def double_eval)
  have decd: "decimals [39 / 10, 39 / 10, 39 / 10, 31 / 10, 31 / 10, 31 / 10] = ?xd"
    by (simp add: decimals_def double_eval)
  have c: "''Creativity'' \<in> set categories" by (simp add: categories_def)
  have la: "3 \<le> length (categoryLogs ?a ''5'' ''Creativity'')" by code_simp
  have lb: "3 \<le> length (categoryLogs ?b ''5'' ''Creativity'')" by code_simp
  have ld: "3 \<le> length (categoryLogs ?d ''5'' ''Creativity'')" by code_simp
  have pa: "pairScores ?a ''5'' ''Creativity'' = ?xa" by code_simp
  have pb: "pairScores ?b ''5'' ''Creativity'' = ?xb" by code_simp
  have pd: "pairScores ?d ''5'' ''Creativity'' = ?xd" by code_simp
  have oa: "olderWindow ?xa = [7 / 2, 7 / 2, 7 / 2]"
    by (simp add: olderWindow_def jsSlice_def sliceIndex_def)
  have ob: "olderWindow ?xb = [3039929748475085 / 1125899906842624,
              3039929748475085 / 1125899906842624, 3039929748475085 / 1125899906842624]"
    by (simp add: olderWindow_def jsSlice_def sliceIndex_def)
  have od: "olderWindow ?xd = [8782019273372467 / 2251799813685248,
              8782019273372467 / 2251799813685248, 8782019273372467 / 2251799813685248]"
    by (simp add: olderWindow_def jsSlice_def sliceIndex_def)
  have rb: "recentWindow ?xb = [2476979795053773 / 1125899906842624,
              2476979795053773 / 1125899906842624, 2476979795053773 / 1125899906842624]"
    by (simp add: recentWindow_def jsSliceFrom_def sliceIndex_def)
  have tb: "jsAverage [3039929748475085 / 1125899906842624,
              3039929748475085 / 1125899906842624, 3039929748475085 / 1125899906842624]
            = 6079859496950171 / 2251799813685248"
    by (simp add: jsAverage_def double_eval)
  have sb: "jsAverage [2476979795053773 / 1125899906842624,
              2476979795053773 / 1125899906842624, 2476979795053773 / 1125899906842624]
            = 2476979795053773 / 1125899906842624"
    by (simp add: jsAverage_def double_eval)
  have da: "declineOf ?xa = 1 / 2"
    by (simp add: declineOf_def olderWindow_def recentWindow_def jsSlice_def jsSliceFrom_def
          sliceIndex_def jsAverage_def double_eval)
  have db: "declineOf ?xb = 1125899906842625 / 2251799813685248"
    unfolding declineOf_def ob rb tb sb by (simp add: double_eval)
  have dd: "declineOf ?xd = 900719925474099 / 1125899906842624"
    by (simp add: declineOf_def olderWindow_def recentWindow_def jsSlice_def jsSliceFrom_def
          sliceIndex_def jsAverage_def double_eval)
  have seven: "roundDouble (7 / 10) = 3152519739159347 / 4503599627370496"
    by (simp add: double_eval)
  have nb: "studentNameOf ?b ''5'' = ''Jordan Smith''" by code_simp
  have ha: "olderWindow (pairScores ?a ''5'' ''Creativity'') \<noteq> []" unfolding pa oa by simp
  have hb: "olderWindow (pairScores ?b ''5'' ''Creativity'') \<noteq> []" unfolding pb ob by simp
  have hd: "olderWindow (pairScores ?d ''5'' ''Creativity'') \<noteq> []" unfolding pd od by simp
  have ea: "alertsOfType Decline ''5'' ''Creativity'' (generateInterventionAlerts noRender noRender ?a) = []"
    using decline_alert_iff [OF c la ha, of noRender noRender] unfolding pa da by simp
  have eb: "alertsOfType Decline ''5'' ''Creativity'' (generateInterventionAlerts noRender noRender ?b) =
       [\<lparr> al_studentId = ''5'', al_studentName = ''Jordan Smith'', al_alertType = Decline,
          al_category = ''Creativity'', al_severity = Low,
          al_message = ''Creativity scores have declined by  points'',
          al_score = 2476979795053773 / 1125899906842624,
          al_threshold = 6079859496950171 / 2251799813685248,
          al_trend = 1125899906842625 / 2251799813685248 \<rparr>]"
    using decline_alert_iff [OF c lb hb, of noRender noRender] unfolding pb db ob rb tb sb nb seven
    by (simp add: noRender_def Let_def)
  have ed: "map al_severity (alertsOfType Decline ''5'' ''Creativity''
        (generateInterventionAlerts noRender noRender ?d)) = [Medium]"
    using decline_alert_iff [OF c ld hd, of noRender noRender] unfolding pd dd seven
    by (simp add: Let_def)
  show ?thesis
    unfolding deca decb decd pa pb pd oa ob od da db dd
    using c la lb ld ea eb ed by simp
qed

text \<open>
  The specification counts score entries where the code counts records. One record of Jordan
  Smith that scores \<open>Creativity\<close> six times, 3.75 three times and then 3 three times, gives
  the pair six score entries, which the code would window in this order: an older window of
  three times 3.75 and a recent window of three times 3, a decline of 0.75. No decline
  alert comes out, the pair having one record only.
\<close>

theorem decline_alert_iff_counterexample:
  "length (scoreEntries [repeatedLog ''5'' ''Jordan Smith'' ''Creativity'' [15 / 4, 15 / 4, 15 / 4, 3, 3, 3]]
            ''5'' ''Creativity'') = 6
   \<and> map cs_score (scoreEntries [repeatedLog ''5'' ''Jordan Smith'' ''Creativity'' [15 / 4, 15 / 4, 15 / 4, 3, 3, 3]]
            ''5'' ''Creativity'') = [15 / 4, 15 / 4, 15 / 4, 3, 3, 3]
   \<and> pairScores [repeatedLog ''5'' ''Jordan Smith'' ''Creativity'' [15 / 4, 15 / 4, 15 / 4, 3, 3, 3]]
            ''5'' ''Creativity'' = [15 / 4, 15 / 4, 15 / 4, 3, 3, 3]
   \<and> olderWindow [15 / 4, 15 / 4, 15 / 4, 3, 3, 3 :: real] = [15 / 4, 15 / 4, 15 / 4]
   \<and> recentWindow [15 / 4, 15 / 4, 15 / 4, 3, 3, 3 :: real] = [3, 3, 3]
   \<and> declineOf [15 / 4, 15 / 4, 15 / 4, 3, 3, 3] = 3 / 4
   \<and> generateInterventionAlerts noRender noRender
        [repeatedLog ''5'' ''Jordan Smith'' ''Creativity'' [15 / 4, 15 / 4, 15 / 4, 3, 3, 3]] = []"
  by code_simp

text \<open>
  The severity high asks for a decline above 1. The array that the code windows over is
  sorted by the integer parts of the scores, so when no score is negative every score of
  its older window is less than every score of its recent window plus 1: the windows
  differ by a point or more in no pair of scores, whatever the order of the records.
\<close>

lemma dateTimeOfNumber_nonneg: "0 \<le> a \<Longrightarrow> dateTimeOfNumber a = \<lfloor>a\<rfloor>"
  by (simp add: dateTimeOfNumber_def)

lemma sliceIndex_le: "sliceIndex n i \<le> n"
  by (auto simp: sliceIndex_def max_def)

lemma windows_of_sorted:
  assumes "o' \<in> set (olderWindow ys)" and "r \<in> set (recentWindow ys)" and "sorted (map f ys)"
  shows "f o' \<le> f r"
proof -
  let ?n = "length ys"
  let ?from = "sliceIndex ?n (- 6)" and ?to = "sliceIndex ?n (- 3)"
  from assms(1) obtain i where i: "i < length (olderWindow ys)" and oi: "olderWindow ys ! i = o'"
    by (auto simp: in_set_conv_nth)
  from assms(2) obtain j where j: "j < length (recentWindow ys)" and rj: "recentWindow ys ! j = r"
    by (auto simp: in_set_conv_nth)
  have li: "?from + i < ?to" and lt: "?to \<le> ?n"
    using i by (auto simp: olderWindow_def jsSlice_def Let_def sliceIndex_def split: if_splits)
  have o_eq: "o' = ys ! (?from + i)"
    using i oi by (simp add: olderWindow_def jsSlice_def Let_def sliceIndex_le)
  have lj: "?to + j < ?n"
    using j by (simp add: recentWindow_def jsSliceFrom_def)
  have r_eq: "r = ys ! (?to + j)"
    using j rj by (simp add: recentWindow_def jsSliceFrom_def sliceIndex_le)
  have "map f ys ! (?from + i) \<le> map f ys ! (?to + j)"
    using assms(3) li lj by (intro sorted_nth_mono) simp_all
  then show ?thesis
    using li lj lt by (simp add: o_eq r_eq)
qed

lemma older_score_below_recent:
  assumes "\<forall>x \<in> set xs. 0 \<le> x"
    and "o' \<in> set (olderWindow (sort_key dateTimeOfNumber xs))"
    and "r \<in> set (recentWindow (sort_key dateTimeOfNumber xs))"
  shows "o' < r + 1"
proof -
  let ?ys = "sort_key dateTimeOfNumber xs"
  have "sorted (map dateTimeOfNumber ?ys)" by simp
  with assms(2,3) have le: "dateTimeOfNumber o' \<le> dateTimeOfNumber r"
    by (rule windows_of_sorted)
  have "set (olderWindow ?ys) \<subseteq> set xs"
    using set_take_subset set_drop_subset
    by (fastforce simp: olderWindow_def jsSlice_def Let_def dest: in_set_takeD in_set_dropD)
  moreover have "set (recentWindow ?ys) \<subseteq> set xs"
    by (auto simp: recentWindow_def jsSliceFrom_def dest: in_set_dropD)
  ultimately have "o' \<in> set xs" and "r \<in> set xs"
    using assms(2,3) by auto
  then have "0 \<le> o'" and "0 \<le> r" using assms(1) by auto
  with le have "\<lfloor>o'\<rfloor> \<le> \<lfloor>r\<rfloor>" by (simp add: dateTimeOfNumber_nonneg)
  then show ?thesis by linarith
qed

subsection \<open>Threshold alerts\<close>

lemma pairScores_nonempty:
  "3 \<le> length (categoryLogs logs sid category) \<Longrightarrow> pairScores logs sid category \<noteq> []"
  using categoryLogs_le_scoreEntries [of logs sid category] length_pairScores [of logs sid category]
  by auto

text \<open>
  C3, as the code has it. For a canonical category and a student with at least three
  records that carry the category, the output holds a threshold alert for the pair if
  and only if the last score of the array the function windows over is strictly below
  2.5 (so a score of exactly 2.5 gives none); there is then exactly one, of severity high
  below 1.5, medium below 2 and low otherwise, with that score, threshold 2.5 and
  trend 0. A pair with fewer than three such records, and so every pair with fewer than
  three score entries, has no alert of any type.
\<close>

theorem threshold_alert_iff:
  assumes "category \<in> set categories"
  shows "(3 \<le> length (categoryLogs logs sid category) \<longrightarrow>
          alertsOfType Threshold sid category (generateInterventionAlerts toFixed1 numToString logs) =
            (let currentScore = last (pairScores logs sid category)
             in if currentScore < 5 / 2 then
                  [\<lparr> al_studentId = sid,
                     al_studentName = studentNameOf logs sid,
                     al_alertType = Threshold,
                     al_category = category,
                     al_severity =
                       (if currentScore < 3 / 2 then High
                        else if currentScore < 2 then Medium else Low),
                     al_message = category @ '' score is below threshold (''
                                    @ numToString currentScore @ ''/5)'',
                     al_score = currentScore,
                     al_threshold = 5 / 2,
                     al_trend = 0 \<rparr>]
                else []))
       \<and> (length (categoryLogs logs sid category) < 3 \<longrightarrow>
            alertsOfPair sid category (generateInterventionAlerts toFixed1 numToString logs) = [])
       \<and> (length (scoreEntries logs sid category) < 3 \<longrightarrow>
            alertsOfPair sid category (generateInterventionAlerts toFixed1 numToString logs) = [])"
proof (intro conjI impI)
  assume gate: "3 \<le> length (categoryLogs logs sid category)"
  then have "pairScores logs sid category \<noteq> []" by (rule pairScores_nonempty)
  then show "alertsOfType Threshold sid category (generateInterventionAlerts toFixed1 numToString logs) =
            (let currentScore = last (pairScores logs sid category)
             in if currentScore < 5 / 2 then
                  [\<lparr> al_studentId = sid,
                     al_studentName = studentNameOf logs sid,
                     al_alertType = Threshold,
                     al_category = category,
                     al_severity =
                       (if currentScore < 3 / 2 then High
                        else if currentScore < 2 then Medium else Low),
                     al_message = category @ '' score is below threshold (''
                                    @ numToString currentScore @ ''/5)'',
                     al_score = currentScore,
                     al_threshold = 5 / 2,
                     al_trend = 0 \<rparr>]
                else [])"
    using assms gate
    by (simp add: alertsOfType_Threshold thresholdAlerts_def Let_def thresholdSeverity_def)
next
  assume "length (categoryLogs logs sid category) < 3"
  then show "alertsOfPair sid category (generateInterventionAlerts toFixed1 numToString logs) = []"
    by (rule alertsOfPair_below_gate)
next
  assume "length (scoreEntries logs sid category) < 3"
  then have "length (categoryLogs logs sid category) < 3"
    using categoryLogs_le_scoreEntries [of logs sid category] by simp
  then show "alertsOfPair sid category (generateInterventionAlerts toFixed1 numToString logs) = []"
    by (rule alertsOfPair_below_gate)
qed

text \<open>
  Three records of Mike Chen for \<open>Cognitive Skills\<close> with scores 1.4, 1.4, 1.4 give a high
  threshold alert; with 2.5, 2.5, 2.5 the last score is exactly 2.5 and there is none;
  two records with score 1 give no alert.
\<close>

theorem threshold_alert_iff_witness:
  "''Cognitive Skills'' \<in> set categories
   \<and> 3 \<le> length (categoryLogs (seriesLogs ''2'' ''Mike Chen'' ''Cognitive Skills'' [14 / 10, 14 / 10, 14 / 10])
                ''2'' ''Cognitive Skills'')
   \<and> alertsOfType Threshold ''2'' ''Cognitive Skills''
        (generateInterventionAlerts noRender noRender
          (seriesLogs ''2'' ''Mike Chen'' ''Cognitive Skills'' [14 / 10, 14 / 10, 14 / 10])) =
       [\<lparr> al_studentId = ''2'', al_studentName = ''Mike Chen'', al_alertType = Threshold,
          al_category = ''Cognitive Skills'', al_severity = High,
          al_message = ''Cognitive Skills score is below threshold (/5)'',
          al_score = 14 / 10, al_threshold = 5 / 2, al_trend = 0 \<rparr>]
   \<and> 3 \<le> length (categoryLogs (seriesLogs ''2'' ''Mike Chen'' ''Cognitive Skills'' [25 / 10, 25 / 10, 25 / 10])
                ''2'' ''Cognitive Skills'')
   \<and> alertsOfType Threshold ''2'' ''Cognitive Skills''
        (generateInterventionAlerts noRender noRender
          (seriesLogs ''2'' ''Mike Chen'' ''Cognitive Skills'' [25 / 10, 25 / 10, 25 / 10])) = []
   \<and> length (categoryLogs (seriesLogs ''2'' ''Mike Chen'' ''Cognitive Skills'' [1, 1])
                ''2'' ''Cognitive Skills'') < 3
   \<and> length (scoreEntries (seriesLogs ''2'' ''Mike Chen'' ''Cognitive Skills'' [1, 1])
                ''2'' ''Cognitive Skills'') < 3
   \<and> alertsOfPair ''2'' ''Cognitive Skills''
        (generateInterventionAlerts noRender noRender
          (seriesLogs ''2'' ''Mike Chen'' ''Cognitive Skills'' [1, 1])) = []"
proof -
  let ?a = "seriesLogs ''2'' ''Mike Chen'' ''Cognitive Skills'' [14 / 10, 14 / 10, 14 / 10]"
  let ?b = "seriesLogs ''2'' ''Mike Chen'' ''Cognitive Skills'' [25 / 10, 25 / 10, 25 / 10]"
  let ?c = "seriesLogs ''2'' ''Mike Chen'' ''Cognitive Skills'' [1, 1]"
  have c: "''Cognitive Skills'' \<in> set categories" by (simp add: categories_def)
  have la: "3 \<le> length (categoryLogs ?a ''2'' ''Cognitive Skills'')" by code_simp
  have lb: "3 \<le> length (categoryLogs ?b ''2'' ''Cognitive Skills'')" by code_simp
  have lc: "length (categoryLogs ?c ''2'' ''Cognitive Skills'') < 3" by code_simp
  have ec: "length (scoreEntries ?c ''2'' ''Cognitive Skills'') < 3" by code_simp
  have pa: "pairScores ?a ''2'' ''Cognitive Skills'' = [14 / 10, 14 / 10, 14 / 10]" by code_simp
  have pb: "pairScores ?b ''2'' ''Cognitive Skills'' = [25 / 10, 25 / 10, 25 / 10]" by code_simp
  have na: "studentNameOf ?a ''2'' = ''Mike Chen''" by code_simp
  show ?thesis
    using threshold_alert_iff [OF c, of ?a "''2''" noRender noRender]
          threshold_alert_iff [OF c, of ?b "''2''" noRender noRender]
          threshold_alert_iff [OF c, of ?c "''2''" noRender noRender] c la lb lc ec
    unfolding pa pb na
    by (simp add: noRender_def Let_def)
qed

text \<open>
  The specification counts score entries where the code counts records. One record of Mike Chen
  that scores \<open>Cognitive Skills\<close> three times with 1 gives the pair three score entries,
  the last of them below 2.5 in any order; no threshold alert comes out, the pair having
  one record only.
\<close>

theorem threshold_alert_iff_counterexample:
  "length (scoreEntries [repeatedLog ''2'' ''Mike Chen'' ''Cognitive Skills'' [1, 1, 1]]
            ''2'' ''Cognitive Skills'') = 3
   \<and> map cs_score (scoreEntries [repeatedLog ''2'' ''Mike Chen'' ''Cognitive Skills'' [1, 1, 1]]
            ''2'' ''Cognitive Skills'') = [1, 1, 1]
   \<and> chronologicalScores [repeatedLog ''2'' ''Mike Chen'' ''Cognitive Skills'' [1, 1, 1]]
            ''2'' ''Cognitive Skills'' = [1, 1, 1]
   \<and> generateInterventionAlerts noRender noRender
        [repeatedLog ''2'' ''Mike Chen'' ''Cognitive Skills'' [1, 1, 1]] = []"
  by code_simp

subsection \<open>Time bucketing\<close>

lemma weekDay_less: "weekDay day < 7"
  by (simp add: weekDay_def nat_less_iff)

lemma ceiling_sevenths: "\<lceil>(real d + real w) / 7\<rceil> = int ((d + w + 6) div 7)"
proof -
  have "\<lceil>(real d + real w) / 7\<rceil> = \<lceil>real_of_int (int (d + w)) / real_of_int 7\<rceil>"
    by simp
  also have "\<dots> = - (- int (d + w) div 7)"
    by (rule ceiling_divide_eq_div)
  also have "\<dots> = int ((d + w + 6) div 7)"
    by (simp add: zdiv_int)
  finally show ?thesis .
qed

lemma weekOfMonth_div:
  "weekOfMonth year month d = int ((d + weekdayOfMonthStart year month + 6) div 7)"
  by (simp add: weekOfMonth_def ceiling_sevenths)

lemma weekOfMonth_range:
  assumes "1 \<le> d" and "d \<le> 31"
  shows "1 \<le> weekOfMonth year month d" and "weekOfMonth year month d \<le> 6"
proof -
  have w: "weekdayOfMonthStart year month < 7"
    by (simp add: weekdayOfMonthStart_def weekDay_less)
  show "1 \<le> weekOfMonth year month d"
    using assms(1) by (simp add: weekOfMonth_div)
  show "weekOfMonth year month d \<le> 6"
    using assms(2) w by (simp add: weekOfMonth_div)
qed

lemma natToString_digit: "n < 10 \<Longrightarrow> natToString n = [digitChar n]"
  by (simp add: natToString.simps)

lemma padStart2_week:
  "1 \<le> w \<Longrightarrow> w \<le> 6 \<Longrightarrow> padStart2 (intToString w) = [CHR ''0'', digitChar (nat w)]"
  by (simp add: padStart2_def intToString_def natToString_digit)

lemmas key_eval =
  weekOfMonth_def weekdayOfMonthStart_def firstOfMonthGetDay_def makeFullYear_def makeDay_def
  dayFromYear_def inLeapYear_def daysBeforeMonth_def weekDay_def padStart2_def intToString_def
  natToString.simps digitChar_def double_eval

text \<open>
  The quotient by 7 of a day of the month plus a weekday index, rounded to a double, has
  the ceiling of the exact quotient.
\<close>

lemma ceiling_jsDiv_sevenths_all:
  "list_all (\<lambda>k. \<lceil>jsDiv (real k) 7\<rceil> = \<lceil>real k / 7\<rceil>) [0..<38]"
  by code_simp

lemma ceiling_jsDiv_sevenths:
  assumes "d \<le> 31" and "w < 7"
  shows "\<lceil>jsDiv (real d + real w) 7\<rceil> = \<lceil>(real d + real w) / 7\<rceil>"
proof -
  have "d + w \<in> set [0..<38]"
    using assms by simp
  with ceiling_jsDiv_sevenths_all
  have "\<lceil>jsDiv (real (d + w)) 7\<rceil> = \<lceil>real (d + w) / 7\<rceil>"
    unfolding list_all_iff by blast
  then show ?thesis by simp
qed

text \<open>
  Where the code computes what the specification asks for: for an instant whose local
  year is outside 0 to 99 and the first day of whose month is a valid Date, the week key
  is the decimal year, \<open>-W0\<close> and the week number of the formula, which is from 1 to 6.
\<close>

lemma getWeekKey_formula:
  assumes "\<not> (0 \<le> year \<and> year \<le> 99)" and "\<bar>makeDay year month 1\<bar> \<le> 100000000"
    and "1 \<le> dayOfMonth" and "dayOfMonth \<le> 31"
  shows "getWeekKey (LocalDate year month dayOfMonth ms) =
           intToString year @ ''-W0'' @ [digitChar (nat (weekOfMonth year month dayOfMonth))]"
proof -
  have full: "makeFullYear year = year"
    using assms(1) by (simp add: makeFullYear_def)
  have first: "firstOfMonthGetDay year month = Some (weekdayOfMonthStart year month)"
    using assms(2) by (simp add: firstOfMonthGetDay_def full weekdayOfMonthStart_def)
  have w: "weekdayOfMonthStart year month < 7"
    by (simp add: weekdayOfMonthStart_def weekDay_less)
  have week: "\<lceil>jsDiv (real dayOfMonth + real (weekdayOfMonthStart year month)) 7\<rceil>
                = weekOfMonth year month dayOfMonth"
    using ceiling_jsDiv_sevenths [OF assms(4) w] by (simp add: weekOfMonth_def)
  show ?thesis
    using weekOfMonth_range [OF assms(3) assms(4), of year month]
    by (simp add: first week padStart2_week)
qed

text \<open>
  C8. The week number of the specification is \<open>ceil((day of the month + weekday index of
  the first day of the instant's month) / 7)\<close>. The source takes the weekday from
  \<^verbatim>\<open>new Date(year, date.getMonth(), 1)\<close>, and that constructor does not build the first day
  of the instant's month for every instant.
  \<^item> A year from 0 to 99 is read as 1900 + year. 1 January of the year 50 is a Saturday
    and 2 January lies in week 2 of the formula; the code takes the weekday of
    1 January 1950, a Sunday, and puts the day in week 1.
  \<^item> 25 April -271821 is a valid instant, the first day of its month lies before the
    earliest Date; the formula gives week 5, the code renders NaN.

  For 31 March 2024 the code and the formula agree on week 6.
\<close>

theorem week_key_weekday_of_wrong_month_start:
  "weekdayOfMonthStart 50 0 = 6
   \<and> weekOfMonth 50 0 2 = 2
   \<and> firstOfMonthGetDay 50 0 = Some 0
   \<and> getWeekKey (LocalDate 50 0 2 0) = ''50-W01''
   \<and> weekOfMonth (- 271821) 3 25 = 5
   \<and> firstOfMonthGetDay (- 271821) 3 = None
   \<and> getWeekKey (LocalDate (- 271821) 3 25 0) = ''-271821-WNaN''
   \<and> weekOfMonth 2024 2 31 = 6
   \<and> getWeekKey (LocalDate 2024 2 31 0) = ''2024-W06''
   \<and> getMonthKey (LocalDate 2024 2 31 0) = ''2024-03''"
  by (simp add: key_eval)

subsection \<open>Accumulation under a key\<close>

lemma map_entry_twice:
  "AList.map_entry k f (AList.map_entry k g m) = AList.map_entry k (\<lambda>v. f (g v)) m"
  by (induction m) auto

lemma map_entry_foldl:
  "foldl (\<lambda>m x. AList.map_entry k (\<lambda>v. h v x) m) m xs =
     AList.map_entry k (\<lambda>v. foldl h v xs) m"
proof (induction xs arbitrary: m)
  case Nil
  show ?case by (induction m) auto
next
  case (Cons x xs)
  show ?case by (simp add: Cons.IH map_entry_twice)
qed

lemma map_of_keyedStep:
  "map_of (keyedStep kf hf init m e) k =
     (if k = kf e
      then Some (hf e (case map_of m k of None \<Rightarrow> init e | Some v \<Rightarrow> v))
      else map_of m k)"
  by (auto simp: keyedStep_def map_of_map_entry map_of_initKey split: option.splits)

lemma distinct_keyedStep: "distinct (map fst m) \<Longrightarrow> distinct (map fst (keyedStep kf hf init m e))"
  by (simp add: keyedStep_def distinct_map_entry distinct_initKey)

lemma foldl_keyedStep:
  "distinct (map fst m) \<Longrightarrow>
   distinct (map fst (foldl (keyedStep kf hf init) m es)) \<and>
   map_of (foldl (keyedStep kf hf init) m es) k =
     (case map_of m k of
        Some v \<Rightarrow> Some (foldl (\<lambda>v e. hf e v) v (filter (\<lambda>e. kf e = k) es))
      | None \<Rightarrow>
          (case filter (\<lambda>e. kf e = k) es of
             [] \<Rightarrow> None
           | e0 # rest \<Rightarrow> Some (foldl (\<lambda>v e. hf e v) (init e0) (e0 # rest))))"
proof (induction es arbitrary: m)
  case Nil
  then show ?case by (simp split: option.splits)
next
  case (Cons e es)
  have d: "distinct (map fst (keyedStep kf hf init m e))"
    using Cons.prems by (rule distinct_keyedStep)
  show ?case
    using Cons.IH [OF d]
    by (auto simp: map_of_keyedStep split: option.splits list.splits)
qed

lemma keyedStep_from_empty:
  "distinct (map fst (foldl (keyedStep kf hf init) [] es))"
  "map_of (foldl (keyedStep kf hf init) [] es) k =
     (case filter (\<lambda>e. kf e = k) es of
        [] \<Rightarrow> None
      | e0 # rest \<Rightarrow> Some (foldl (\<lambda>v e. hf e v) (init e0) (e0 # rest)))"
  using foldl_keyedStep [of "[]" kf hf init es k] by simp_all

subsection \<open>Scores collected by category\<close>

lemma addScore_keyed:
  "addScore = keyedStep cs_category (\<lambda>e arr. arr @ [cs_score e]) (\<lambda>e. [])"
  by (intro ext) (simp add: addScore_def keyedStep_def initKey_def Let_def)

lemma foldl_snoc_map: "foldl (\<lambda>v e. v @ [f e]) v es = v @ map f es"
  by (induction es arbitrary: v) simp_all

lemma map_of_foldl_addScore:
  "map_of (foldl addScore [] es) c =
     (if filter (\<lambda>e. cs_category e = c) es = [] then None
      else Some (map cs_score (filter (\<lambda>e. cs_category e = c) es)))"
  by (simp add: addScore_keyed keyedStep_from_empty(2) foldl_snoc_map split: list.splits)

lemma distinct_foldl_addScore: "distinct (map fst (foldl addScore [] es))"
  by (simp add: addScore_keyed keyedStep_from_empty(1))

lemma total_map_entry_snoc:
  "map_of m k \<noteq> None \<Longrightarrow>
   sum_list (map (\<lambda>p. length (snd p)) (AList.map_entry k (\<lambda>arr. arr @ [x]) m)) =
     Suc (sum_list (map (\<lambda>p. length (snd p)) m))"
  by (induction m) auto

lemma total_addScore:
  "sum_list (map (\<lambda>p. length (snd p)) (addScore obj e)) =
     Suc (sum_list (map (\<lambda>p. length (snd p)) obj))"
proof (cases "map_of obj (cs_category e)")
  case None
  have "sum_list (map (\<lambda>p. length (snd p)) (AList.update (cs_category e) [] obj)) =
        sum_list (map (\<lambda>p. length (snd p)) obj)"
    using None by (induction obj) (auto split: if_splits)
  moreover have "map_of (AList.update (cs_category e) [] obj) (cs_category e) \<noteq> None"
    by (simp add: update_conv')
  ultimately show ?thesis
    using None by (simp add: addScore_def Let_def total_map_entry_snoc)
next
  case (Some arr)
  then show ?thesis by (simp add: addScore_def Let_def total_map_entry_snoc)
qed

lemma total_foldl_addScore:
  "sum_list (map (\<lambda>p. length (snd p)) (foldl addScore obj es)) =
     sum_list (map (\<lambda>p. length (snd p)) obj) + length es"
  by (induction es arbitrary: obj) (simp_all add: total_addScore)

lemma foldl_count: "foldl (\<lambda>sum arr. sum + length arr) n xs = n + sum_list (map length xs)"
  by (induction xs arbitrary: n) simp_all

subsection \<open>The bucket maps of the trend aggregation\<close>

lemma map_entry_ident: "AList.map_entry k (\<lambda>v. v) m = m"
  by (induction m) auto

lemma foldl_pair:
  "foldl (\<lambda>(w, m) x. (F w x, G m x)) (w0, m0) xs = (foldl F w0 xs, foldl G m0 xs)"
  by (induction xs arbitrary: w0 m0) simp_all

lemma trendStep_components:
  "trendStep wm lg =
     (keyedStep (\<lambda>lg. getWeekKey (log_timestamp lg))
                (\<lambda>lg obj. foldl addScore obj (categoriesOf lg)) (\<lambda>lg. []) (fst wm) lg,
      keyedStep (\<lambda>lg. getMonthKey (log_timestamp lg))
                (\<lambda>lg obj. foldl addScore obj (categoriesOf lg)) (\<lambda>lg. []) (snd wm) lg)"
proof (cases "log_categories lg")
  case None
  then show ?thesis
    by (simp add: trendStep_def keyedStep_def categoriesOf_def map_entry_ident Let_def)
next
  case (Some cats)
  have "foldl (\<lambda>(w, m) categoryScore.
                  (AList.map_entry k1 (\<lambda>obj. addScore obj categoryScore) w,
                   AList.map_entry k2 (\<lambda>obj. addScore obj categoryScore) m)) (w0, m0) cats =
        (AList.map_entry k1 (\<lambda>obj. foldl addScore obj cats) w0,
         AList.map_entry k2 (\<lambda>obj. foldl addScore obj cats) m0)" for k1 k2 w0 m0
    using foldl_pair [of "\<lambda>w x. AList.map_entry k1 (\<lambda>obj. addScore obj x) w"
                         "\<lambda>m x. AList.map_entry k2 (\<lambda>obj. addScore obj x) m" w0 m0 cats]
    by (simp add: map_entry_foldl)
  then show ?thesis
    using Some by (simp add: trendStep_def keyedStep_def categoriesOf_def Let_def)
qed

lemma foldl_trendStep:
  "foldl trendStep (w, m) logs =
     (foldl (keyedStep (\<lambda>lg. getWeekKey (log_timestamp lg))
                (\<lambda>lg obj. foldl addScore obj (categoriesOf lg)) (\<lambda>lg. [])) w logs,
      foldl (keyedStep (\<lambda>lg. getMonthKey (log_timestamp lg))
                (\<lambda>lg obj. foldl addScore obj (categoriesOf lg)) (\<lambda>lg. [])) m logs)"
  by (induction logs arbitrary: w m) (simp_all add: trendStep_components)

lemma trendBuckets_bucketsBy:
  "trendBuckets logs studentId =
     (bucketsBy getWeekKey (filterLogs logs studentId),
      bucketsBy getMonthKey (filterLogs logs studentId))"
  by (simp add: trendBuckets_def bucketsBy_def foldl_trendStep)

lemma foldl_foldl_concat:
  "foldl (\<lambda>v e. foldl h v (f e)) v es = foldl h v (concat (map f es))"
  by (induction es arbitrary: v) simp_all

lemma distinct_bucketsBy: "distinct (map fst (bucketsBy key logs))"
  by (simp add: bucketsBy_def keyedStep_from_empty(1))

lemma map_of_bucketsBy:
  "map_of (bucketsBy key logs) p =
     (if filter (\<lambda>lg. key (log_timestamp lg) = p) logs = [] then None
      else Some (foldl addScore [] (bucketEntries key logs p)))"
proof -
  have "map_of (bucketsBy key logs) p =
     (case filter (\<lambda>lg. key (log_timestamp lg) = p) logs of
        [] \<Rightarrow> None
      | e0 # rest \<Rightarrow> Some (foldl addScore [] (concat (map categoriesOf (e0 # rest)))))"
    unfolding bucketsBy_def keyedStep_from_empty(2) foldl_foldl_concat ..
  then show ?thesis
    by (simp add: bucketEntries_def split: list.splits)
qed

lemma bucketsBy_entry:
  assumes "(p, obj) \<in> set (bucketsBy key logs)"
  shows "obj = foldl addScore [] (bucketEntries key logs p)"
    and "\<exists>lg \<in> set logs. key (log_timestamp lg) = p"
proof -
  have "map_of (bucketsBy key logs) p = Some obj"
    using assms distinct_bucketsBy by simp
  then have "filter (\<lambda>lg. key (log_timestamp lg) = p) logs \<noteq> []"
    and o: "obj = foldl addScore [] (bucketEntries key logs p)"
    by (auto simp: map_of_bucketsBy split: if_splits)
  then show "\<exists>lg \<in> set logs. key (log_timestamp lg) = p"
    by (auto simp: filter_empty_conv)
  show "obj = foldl addScore [] (bucketEntries key logs p)" by (rule o)
qed

lemma bucketsBy_has_period:
  assumes "lg \<in> set logs"
  shows "(key (log_timestamp lg), foldl addScore [] (bucketEntries key logs (key (log_timestamp lg))))
           \<in> set (bucketsBy key logs)"
proof -
  have "filter (\<lambda>l. key (log_timestamp l) = key (log_timestamp lg)) logs \<noteq> []"
    using assms by (auto simp: filter_empty_conv)
  then have "map_of (bucketsBy key logs) (key (log_timestamp lg)) =
        Some (foldl addScore [] (bucketEntries key logs (key (log_timestamp lg))))"
    by (simp add: map_of_bucketsBy)
  then show ?thesis by (rule map_of_SomeD)
qed

subsection \<open>One trend entry\<close>

lemma map_of_map_values:
  "map_of (map (\<lambda>(k, v). (k, f v)) m) c = map_option f (map_of m c)"
  by (induction m) auto

lemma toTrend_period: "td_period (toTrend (p, obj)) = p"
  by (simp add: toTrend_def)

lemma toTrend_scores:
  "map_of (td_scores (toTrend (p, foldl addScore [] es))) c =
     (if filter (\<lambda>e. cs_category e = c) es = [] then None
      else Some (mean (map cs_score (filter (\<lambda>e. cs_category e = c) es))))"
proof -
  have "map_of (td_scores (toTrend (p, foldl addScore [] es))) c =
        map_option (\<lambda>scoreArray. if length scoreArray > 0 then average scoreArray else 0)
          (map_of (foldl addScore [] es) c)"
    unfolding toTrend_def by (simp only: TrendData.simps fst_conv snd_conv map_of_map_values)
  then show ?thesis
    by (simp add: map_of_foldl_addScore average_mean)
qed

lemma toTrend_total: "td_totalObservations (toTrend (p, foldl addScore [] es)) = length es"
proof -
  have "sum_list (map length (map snd (foldl addScore [] es))) =
        sum_list (map (\<lambda>p. length (snd p)) (foldl addScore [] es))"
    by (simp add: comp_def)
  then show ?thesis
    by (simp add: toTrend_def foldl_count total_foldl_addScore)
qed


subsection \<open>Week keys and month keys\<close>

lemma digitChar_digit: "digitChar n \<in> set ''0123456789''"
  unfolding digitChar_def by (rule nth_mem) simp

lemma natToString_digits: "set (natToString n) \<subseteq> set ''0123456789''"
proof (induction n rule: natToString.induct)
  case (1 n)
  show ?case
  proof (cases "n < 10")
    case True
    then show ?thesis
      using digitChar_digit [of n] by (subst natToString.simps) simp
  next
    case False
    then show ?thesis
      using "1.IH" digitChar_digit [of n] by (subst natToString.simps) simp
  qed
qed

lemma natToString_no_W: "CHR ''W'' \<notin> set (natToString n)"
  using natToString_digits [of n] by auto

lemma intToString_no_W: "CHR ''W'' \<notin> set (intToString i)"
  by (simp add: intToString_def natToString_no_W)

lemma padStart2_no_W: "CHR ''W'' \<notin> set s \<Longrightarrow> CHR ''W'' \<notin> set (padStart2 s)"
  by (simp add: padStart2_def)

lemma getWeekKey_W: "CHR ''W'' \<in> set (getWeekKey d)"
  by (cases d) (simp_all add: Let_def split: option.split)

lemma getMonthKey_no_W: "CHR ''W'' \<notin> set (getMonthKey d)"
  by (cases d) (simp_all add: intToString_no_W padStart2_no_W natToString_no_W)

lemma periodKey_week: "periodKey (getWeekKey d) = getWeekKey"
  by (simp add: periodKey_def getWeekKey_W)

lemma periodKey_month: "periodKey (getMonthKey d) = getMonthKey"
  by (simp add: periodKey_def getMonthKey_no_W)

subsection \<open>Dictionaries without inherited names\<close>

lemma objOwn_Nil: "objOwn []"
  by (simp add: objOwn_def)

lemma map_of_addScore:
  "map_of (addScore obj cs) c =
     (if c = cs_category cs
      then Some ((case map_of obj c of None \<Rightarrow> [] | Some arr \<Rightarrow> arr) @ [cs_score cs])
      else map_of obj c)"
  by (auto simp: addScore_def Let_def map_of_map_entry update_conv' split: option.splits)

lemma objOwn_addScore:
  "objOwn obj \<Longrightarrow> cs_category cs \<notin> set objectPrototypeNames \<Longrightarrow> objOwn (addScore obj cs)"
  by (auto simp: objOwn_def map_of_addScore)

lemma addScoreE_addScore:
  assumes "objOwn obj"
  shows "addScoreE obj cs =
           (if cs_category cs \<in> set objectPrototypeNames then Inl TypeError else Inr (addScore obj cs))"
  using assms by (auto simp: addScoreE_def addScore_def Let_def objOwn_def split: option.splits)

lemma update_map_entry: "map_of m k = Some v \<Longrightarrow> AList.update k (f v) m = AList.map_entry k f m"
  by (induction m) (auto split: if_splits)

lemma set_map_entry:
  "e \<in> set (AList.map_entry k f m) \<Longrightarrow> e \<in> set m \<or> (\<exists>v. (k, v) \<in> set m \<and> e = (k, f v))"
  by (induction m) (auto split: if_splits)

lemma set_initKey: "e \<in> set (initKey k v m) \<Longrightarrow> e \<in> set m \<or> e = (k, v)"
proof -
  have "e \<in> set (AList.update k v m) \<Longrightarrow> e \<in> set m \<or> e = (k, v)"
    by (induction m) (auto split: if_splits)
  then show "e \<in> set (initKey k v m) \<Longrightarrow> e \<in> set m \<or> e = (k, v)"
    by (auto simp: initKey_def split: if_splits)
qed

lemma initKey_present: "map_of (initKey k v m) k \<noteq> None"
  by (simp add: initKey_def update_conv')

subsection \<open>The trend loop with the exception\<close>

lemma bucketsOwn_initKey: "bucketsOwn data \<Longrightarrow> bucketsOwn (initKey key [] data)"
  unfolding bucketsOwn_def using set_initKey [of _ key "[]" data] objOwn_Nil by fastforce

lemma bucketsOwn_map_entry:
  assumes "bucketsOwn data" and "cs_category cs \<notin> set objectPrototypeNames"
  shows "bucketsOwn (AList.map_entry key (\<lambda>obj. addScore obj cs) data)"
  unfolding bucketsOwn_def
proof
  fix e assume "e \<in> set (AList.map_entry key (\<lambda>obj. addScore obj cs) data)"
  then consider "e \<in> set data" | v where "(key, v) \<in> set data" "e = (key, addScore v cs)"
    using set_map_entry by fastforce
  then show "objOwn (snd e)"
  proof cases
    case 1
    with assms(1) show ?thesis by (simp add: bucketsOwn_def)
  next
    case 2
    with assms(1) have "objOwn v" by (auto simp: bucketsOwn_def)
    with 2 assms(2) show ?thesis by (simp add: objOwn_addScore)
  qed
qed

lemma bucketAddE_addScore:
  assumes "map_of data key \<noteq> None" and "bucketsOwn data"
  shows "bucketAddE key data cs =
           (if cs_category cs \<in> set objectPrototypeNames then Inl TypeError
            else Inr (AList.map_entry key (\<lambda>obj. addScore obj cs) data))"
proof -
  from assms(1) obtain obj where obj: "map_of data key = Some obj" by auto
  then have "(key, obj) \<in> set data" by (rule map_of_SomeD)
  with assms(2) have "objOwn obj" by (auto simp: bucketsOwn_def)
  then show ?thesis
    by (simp add: bucketAddE_def obj addScoreE_addScore
          update_map_entry [OF obj, of "\<lambda>obj. addScore obj cs"])
qed

lemma foldl_trendScoreE_error: "foldl (trendScoreE wk mk) (Inl e) cats = Inl e"
  by (induction cats) (simp_all add: trendScoreE_def)

lemma foldl_trendScoreE:
  assumes "map_of w wk \<noteq> None" and "map_of m mk \<noteq> None" and "bucketsOwn w" and "bucketsOwn m"
  shows "foldl (trendScoreE wk mk) (Inr (w, m)) cats =
           (if \<forall>cs \<in> set cats. cs_category cs \<notin> set objectPrototypeNames
            then Inr (foldl (\<lambda>(w, m) categoryScore.
                               (AList.map_entry wk (\<lambda>obj. addScore obj categoryScore) w,
                                AList.map_entry mk (\<lambda>obj. addScore obj categoryScore) m))
                            (w, m) cats)
            else Inl TypeError)"
  using assms
proof (induction cats arbitrary: w m)
  case Nil
  show ?case by simp
next
  case (Cons cs cats)
  show ?case
  proof (cases "cs_category cs \<in> set objectPrototypeNames")
    case True
    then have "trendScoreE wk mk (Inr (w, m)) cs = Inl TypeError"
      by (simp add: trendScoreE_def bucketAddE_addScore [OF Cons.prems(1,3)])
    with True show ?thesis by (simp add: foldl_trendScoreE_error)
  next
    case False
    let ?w = "AList.map_entry wk (\<lambda>obj. addScore obj cs) w"
    let ?m = "AList.map_entry mk (\<lambda>obj. addScore obj cs) m"
    have step: "trendScoreE wk mk (Inr (w, m)) cs = Inr (?w, ?m)"
      using False
      by (simp add: trendScoreE_def bucketAddE_addScore [OF Cons.prems(1,3)]
            bucketAddE_addScore [OF Cons.prems(2,4)])
    have pw: "map_of ?w wk \<noteq> None" and pm: "map_of ?m mk \<noteq> None"
      using Cons.prems(1,2) by (auto simp: map_of_map_entry)
    have ow: "bucketsOwn ?w" and om: "bucketsOwn ?m"
      using Cons.prems(3,4) False by (simp_all add: bucketsOwn_map_entry)
    show ?thesis
      using False by (simp add: step Cons.IH [OF pw pm ow om])
  qed
qed

lemma bucketsOwn_scores:
  assumes "bucketsOwn w" and "bucketsOwn m"
    and "\<forall>cs \<in> set cats. cs_category cs \<notin> set objectPrototypeNames"
  shows "bucketsOwn (fst (foldl (\<lambda>(w, m) categoryScore.
                               (AList.map_entry wk (\<lambda>obj. addScore obj categoryScore) w,
                                AList.map_entry mk (\<lambda>obj. addScore obj categoryScore) m))
                            (w, m) cats))
       \<and> bucketsOwn (snd (foldl (\<lambda>(w, m) categoryScore.
                               (AList.map_entry wk (\<lambda>obj. addScore obj categoryScore) w,
                                AList.map_entry mk (\<lambda>obj. addScore obj categoryScore) m))
                            (w, m) cats))"
  using assms
  by (induction cats arbitrary: w m) (simp_all add: bucketsOwn_map_entry)

lemma trendStepE_trendStep:
  assumes "bucketsOwn (fst wm)" and "bucketsOwn (snd wm)"
  shows "trendStepE (Inr wm) lg =
           (if \<forall>cs \<in> set (categoriesOf lg). cs_category cs \<notin> set objectPrototypeNames
            then Inr (trendStep wm lg) else Inl TypeError)"
    and "\<forall>cs \<in> set (categoriesOf lg). cs_category cs \<notin> set objectPrototypeNames \<Longrightarrow>
           bucketsOwn (fst (trendStep wm lg)) \<and> bucketsOwn (snd (trendStep wm lg))"
proof -
  let ?wk = "getWeekKey (log_timestamp lg)" and ?mk = "getMonthKey (log_timestamp lg)"
  let ?w = "initKey ?wk [] (fst wm)" and ?m = "initKey ?mk [] (snd wm)"
  have ow: "bucketsOwn ?w" and om: "bucketsOwn ?m"
    using assms by (simp_all add: bucketsOwn_initKey)
  have pw: "map_of ?w ?wk \<noteq> None" and pm: "map_of ?m ?mk \<noteq> None"
    by (rule initKey_present)+
  show "trendStepE (Inr wm) lg =
           (if \<forall>cs \<in> set (categoriesOf lg). cs_category cs \<notin> set objectPrototypeNames
            then Inr (trendStep wm lg) else Inl TypeError)"
  proof (cases "log_categories lg")
    case None
    then show ?thesis
      by (simp add: trendStepE_def trendStep_def categoriesOf_def Let_def)
  next
    case (Some cats)
    then show ?thesis
      by (simp add: trendStepE_def trendStep_def categoriesOf_def Let_def
            foldl_trendScoreE [OF pw pm ow om])
  qed
  show "bucketsOwn (fst (trendStep wm lg)) \<and> bucketsOwn (snd (trendStep wm lg))"
    if own: "\<forall>cs \<in> set (categoriesOf lg). cs_category cs \<notin> set objectPrototypeNames"
  proof (cases "log_categories lg")
    case None
    then show ?thesis
      using ow om by (simp add: trendStep_def Let_def)
  next
    case (Some cats)
    with own have "\<forall>cs \<in> set cats. cs_category cs \<notin> set objectPrototypeNames"
      by (simp add: categoriesOf_def)
    from bucketsOwn_scores [OF ow om this, of ?wk ?mk] Some show ?thesis
      by (simp add: trendStep_def Let_def)
  qed
qed

lemma foldl_trendStepE_error: "foldl trendStepE (Inl e) logs = Inl e"
  by (induction logs) (simp_all add: trendStepE_def)

lemma ownNames_Cons:
  "ownNames (lg # logs) \<longleftrightarrow>
     (\<forall>cs \<in> set (categoriesOf lg). cs_category cs \<notin> set objectPrototypeNames) \<and> ownNames logs"
  by (simp add: ownNames_def)

lemma foldl_trendStepE:
  assumes "bucketsOwn (fst wm)" and "bucketsOwn (snd wm)"
  shows "foldl trendStepE (Inr wm) logs =
           (if ownNames logs then Inr (foldl trendStep wm logs) else Inl TypeError)"
  using assms
proof (induction logs arbitrary: wm)
  case Nil
  show ?case by (simp add: ownNames_def)
next
  case (Cons lg logs)
  show ?case
  proof (cases "\<forall>cs \<in> set (categoriesOf lg). cs_category cs \<notin> set objectPrototypeNames")
    case True
    have step: "trendStepE (Inr wm) lg = Inr (trendStep wm lg)"
      using trendStepE_trendStep(1) [OF Cons.prems, of lg] True by simp
    have own: "bucketsOwn (fst (trendStep wm lg))" "bucketsOwn (snd (trendStep wm lg))"
      using trendStepE_trendStep(2) [OF Cons.prems True] by simp_all
    show ?thesis
      using True by (simp add: step Cons.IH [OF own] ownNames_Cons)
  next
    case False
    have "trendStepE (Inr wm) lg = Inl TypeError"
      using trendStepE_trendStep(1) [OF Cons.prems, of lg] False by simp
    with False show ?thesis
      by (simp add: foldl_trendStepE_error ownNames_Cons)
  qed
qed

text \<open>
  The call of \<^verbatim>\<open>calculateTrends\<close> returns if and only if no category of a record that
  passes the filter is an inherited property name, and it then returns the array
  \<open>calculateTrends\<close>.
\<close>

lemma calculateTrendsE_calculateTrends:
  "calculateTrendsE sortByPeriod logs studentId =
     (if ownNames (filterLogs logs studentId)
      then Inr (calculateTrends sortByPeriod logs studentId) else Inl TypeError)"
proof -
  have "bucketsOwn (fst ([], []))" and "bucketsOwn (snd ([], []))"
    by (simp_all add: bucketsOwn_def)
  then have "foldl trendStepE (Inr ([], [])) (filterLogs logs studentId) =
           (if ownNames (filterLogs logs studentId)
            then Inr (foldl trendStep ([], []) (filterLogs logs studentId)) else Inl TypeError)"
    by (rule foldl_trendStepE)
  then show ?thesis
    by (simp add: calculateTrendsE_def calculateTrends_def trendBuckets_def Let_def)
qed

subsection \<open>The collecting loop with the exception\<close>

lemma studentsOwn_initKey:
  "studentsOwn sm \<Longrightarrow> studentsOwn (initKey sid \<lparr> sd_scores = [], sd_name = name \<rparr> sm)"
  unfolding studentsOwn_def
  using set_initKey [of _ sid "\<lparr> sd_scores = [], sd_name = name \<rparr>" sm] objOwn_Nil by fastforce

lemma studentsOwn_map_entry:
  assumes "studentsOwn sm" and "cs_category cs \<notin> set objectPrototypeNames"
  shows "studentsOwn (AList.map_entry sid
            (\<lambda>data. data\<lparr> sd_scores := addScore (sd_scores data) cs \<rparr>) sm)"
  unfolding studentsOwn_def
proof
  fix e
  assume "e \<in> set (AList.map_entry sid (\<lambda>data. data\<lparr> sd_scores := addScore (sd_scores data) cs \<rparr>) sm)"
  then consider "e \<in> set sm"
    | v where "(sid, v) \<in> set sm" "e = (sid, v\<lparr> sd_scores := addScore (sd_scores v) cs \<rparr>)"
    using set_map_entry by fastforce
  then show "objOwn (sd_scores (snd e))"
  proof cases
    case 1
    with assms(1) show ?thesis by (simp add: studentsOwn_def)
  next
    case 2
    with assms(1) have "objOwn (sd_scores v)" by (auto simp: studentsOwn_def)
    with 2 assms(2) show ?thesis by (simp add: objOwn_addScore)
  qed
qed

lemma foldl_collectScoreE_error: "foldl (collectScoreE sid) (Inl e) cats = Inl e"
  by (induction cats) (simp_all add: collectScoreE_def)

lemma collectScoreE_addScore:
  assumes "map_of sm sid \<noteq> None" and "studentsOwn sm"
  shows "collectScoreE sid (Inr sm) cs =
           (if cs_category cs \<in> set objectPrototypeNames then Inl TypeError
            else Inr (AList.map_entry sid
                        (\<lambda>data. data\<lparr> sd_scores := addScore (sd_scores data) cs \<rparr>) sm))"
proof -
  from assms(1) obtain data where data: "map_of sm sid = Some data" by auto
  then have "(sid, data) \<in> set sm" by (rule map_of_SomeD)
  with assms(2) have "objOwn (sd_scores data)" by (auto simp: studentsOwn_def)
  then show ?thesis
    using update_map_entry [OF data, of "\<lambda>data. data\<lparr> sd_scores := addScore (sd_scores data) cs \<rparr>"]
    by (simp add: collectScoreE_def data addScoreE_addScore)
qed

lemma studentsOwn_scores:
  assumes "studentsOwn sm" and "\<forall>cs \<in> set cats. cs_category cs \<notin> set objectPrototypeNames"
  shows "studentsOwn (foldl (\<lambda>sm categoryScore.
                               AList.map_entry sid
                                 (\<lambda>data. data\<lparr> sd_scores := addScore (sd_scores data) categoryScore \<rparr>) sm)
                            sm cats)"
  using assms by (induction cats arbitrary: sm) (simp_all add: studentsOwn_map_entry)

lemma foldl_collectScoreE:
  assumes "map_of sm sid \<noteq> None" and "studentsOwn sm"
  shows "foldl (collectScoreE sid) (Inr sm) cats =
           (if \<forall>cs \<in> set cats. cs_category cs \<notin> set objectPrototypeNames
            then Inr (foldl (\<lambda>sm categoryScore.
                               AList.map_entry sid
                                 (\<lambda>data. data\<lparr> sd_scores := addScore (sd_scores data) categoryScore \<rparr>) sm)
                            sm cats)
            else Inl TypeError)"
  using assms
proof (induction cats arbitrary: sm)
  case Nil
  show ?case by simp
next
  case (Cons cs cats)
  let ?sm = "AList.map_entry sid (\<lambda>data. data\<lparr> sd_scores := addScore (sd_scores data) cs \<rparr>) sm"
  show ?case
  proof (cases "cs_category cs \<in> set objectPrototypeNames")
    case True
    then show ?thesis
      by (simp add: collectScoreE_addScore [OF Cons.prems] foldl_collectScoreE_error)
  next
    case False
    have p: "map_of ?sm sid \<noteq> None" using Cons.prems(1) by (auto simp: map_of_map_entry)
    have o: "studentsOwn ?sm" using Cons.prems(2) False by (rule studentsOwn_map_entry)
    show ?thesis
      using False by (simp add: collectScoreE_addScore [OF Cons.prems] Cons.IH [OF p o])
  qed
qed

lemma collectStepE_collectStep:
  assumes "studentsOwn sm"
  shows "collectStepE (Inr sm) lg =
           (if \<forall>cs \<in> set (categoriesOf lg). cs_category cs \<notin> set objectPrototypeNames
            then Inr (collectStep sm lg) else Inl TypeError)"
    and "\<forall>cs \<in> set (categoriesOf lg). cs_category cs \<notin> set objectPrototypeNames \<Longrightarrow>
           studentsOwn (collectStep sm lg)"
proof -
  let ?sm = "initKey (log_studentId lg) \<lparr> sd_scores = [], sd_name = log_studentName lg \<rparr> sm"
  have o: "studentsOwn ?sm" using assms by (rule studentsOwn_initKey)
  have p: "map_of ?sm (log_studentId lg) \<noteq> None" by (rule initKey_present)
  show "collectStepE (Inr sm) lg =
           (if \<forall>cs \<in> set (categoriesOf lg). cs_category cs \<notin> set objectPrototypeNames
            then Inr (collectStep sm lg) else Inl TypeError)"
    by (cases "log_categories lg")
       (simp_all add: collectStepE_def collectStep_def categoriesOf_def Let_def
          foldl_collectScoreE [OF p o])
  show "studentsOwn (collectStep sm lg)"
    if "\<forall>cs \<in> set (categoriesOf lg). cs_category cs \<notin> set objectPrototypeNames"
    using that o studentsOwn_scores [OF o, of _ "log_studentId lg"]
    by (cases "log_categories lg") (simp_all add: collectStep_def categoriesOf_def Let_def)
qed

lemma foldl_collectStepE_error: "foldl collectStepE (Inl e) logs = Inl e"
  by (induction logs) (simp_all add: collectStepE_def)

lemma foldl_collectStepE:
  assumes "studentsOwn sm"
  shows "foldl collectStepE (Inr sm) logs =
           (if ownNames logs then Inr (foldl collectStep sm logs) else Inl TypeError)"
  using assms
proof (induction logs arbitrary: sm)
  case Nil
  show ?case by (simp add: ownNames_def)
next
  case (Cons lg logs)
  show ?case
  proof (cases "\<forall>cs \<in> set (categoriesOf lg). cs_category cs \<notin> set objectPrototypeNames")
    case True
    have step: "collectStepE (Inr sm) lg = Inr (collectStep sm lg)"
      using collectStepE_collectStep(1) [OF Cons.prems, of lg] True by simp
    have own: "studentsOwn (collectStep sm lg)"
      using collectStepE_collectStep(2) [OF Cons.prems True] .
    show ?thesis
      using True by (simp add: step Cons.IH [OF own] ownNames_Cons)
  next
    case False
    have "collectStepE (Inr sm) lg = Inl TypeError"
      using collectStepE_collectStep(1) [OF Cons.prems, of lg] False by simp
    with False show ?thesis
      by (simp add: foldl_collectStepE_error ownNames_Cons)
  qed
qed

text \<open>
  The call of \<^verbatim>\<open>calculatePeerComparison\<close> returns if and only if no category of the input
  is an inherited property name, and it then returns the array \<open>calculatePeerComparison\<close>.
\<close>

lemma calculatePeerComparisonE_calculatePeerComparison:
  "calculatePeerComparisonE logs =
     (if ownNames logs then Inr (calculatePeerComparison logs) else Inl TypeError)"
proof -
  have "studentsOwn []" by (simp add: studentsOwn_def)
  then have "foldl collectStepE (Inr []) logs =
           (if ownNames logs then Inr (foldl collectStep [] logs) else Inl TypeError)"
    by (rule foldl_collectStepE)
  then show ?thesis
    by (simp add: calculatePeerComparisonE_def calculatePeerComparison_def Let_def)
qed

subsection \<open>The output of the trend aggregation\<close>

lemma set_calculateTrends:
  assumes "\<And>xs. mset (sortByPeriod xs) = mset xs"
  shows "set (calculateTrends sortByPeriod logs studentId) =
           toTrend ` set (bucketsBy getWeekKey (filterLogs logs studentId))
           \<union> toTrend ` set (bucketsBy getMonthKey (filterLogs logs studentId))"
proof -
  have "set (sortByPeriod xs) = set xs" for xs
    using assms [of xs] by (rule mset_eq_setD)
  then show ?thesis
    by (simp add: calculateTrends_def trendBuckets_bucketsBy Let_def)
qed

lemma bucket_trend:
  assumes "(p, obj) \<in> set (bucketsBy key logs)"
  shows "td_period (toTrend (p, obj)) = p"
    and "map_of (td_scores (toTrend (p, obj))) c =
           (if bucketScores key logs p c = [] then None
            else Some (mean (bucketScores key logs p c)))"
    and "td_totalObservations (toTrend (p, obj)) = length (bucketEntries key logs p)"
    and "\<exists>lg \<in> set logs. key (log_timestamp lg) = p"
proof -
  note e = bucketsBy_entry [OF assms]
  show "td_period (toTrend (p, obj)) = p" by (rule toTrend_period)
  show "map_of (td_scores (toTrend (p, obj))) c =
           (if bucketScores key logs p c = [] then None
            else Some (mean (bucketScores key logs p c)))"
    unfolding e(1) toTrend_scores by (simp add: bucketScores_def)
  show "td_totalObservations (toTrend (p, obj)) = length (bucketEntries key logs p)"
    unfolding e(1) by (rule toTrend_total)
  show "\<exists>lg \<in> set logs. key (log_timestamp lg) = p" by (rule e(2))
qed

lemma bucketsBy_week_period:
  "(p, obj) \<in> set (bucketsBy getWeekKey logs) \<Longrightarrow> periodKey p = getWeekKey"
  using bucketsBy_entry(2) [of p obj getWeekKey logs] by (auto simp: periodKey_week)

lemma bucketsBy_month_period:
  "(p, obj) \<in> set (bucketsBy getMonthKey logs) \<Longrightarrow> periodKey p = getMonthKey"
  using bucketsBy_entry(2) [of p obj getMonthKey logs] by (auto simp: periodKey_month)

lemma bucket_emitted:
  assumes "\<And>xs. mset (sortByPeriod xs) = mset xs"
    and "lg \<in> set (filterLogs logs studentId)"
    and "key = getWeekKey \<or> key = getMonthKey"
  shows "toTrend (key (log_timestamp lg),
                  foldl addScore [] (bucketEntries key (filterLogs logs studentId)
                                       (key (log_timestamp lg))))
           \<in> set (calculateTrends sortByPeriod logs studentId)"
  using assms(3) bucketsBy_has_period [OF assms(2), of key]
  unfolding set_calculateTrends [OF assms(1)] by blast

lemma period_emitted:
  assumes "\<And>xs. mset (sortByPeriod xs) = mset xs"
    and "lg \<in> set (filterLogs logs studentId)"
    and "key = getWeekKey \<or> key = getMonthKey"
  shows "\<exists>t \<in> set (calculateTrends sortByPeriod logs studentId).
           td_period t = key (log_timestamp lg)"
  using bucket_emitted [OF assms] toTrend_period by blast

text \<open>
  C5. Every entry \<open>t\<close> that \<^verbatim>\<open>calculateTrends\<close> emits is the bucket of its period under the
  key function of that period (week or month) over the records that pass the student
  filter: \<open>scores[c]\<close> is present exactly for the categories with a score entry in the
  bucket and is then the arithmetic mean of all the bucket's scores for \<open>c\<close>, and
  \<open>totalObservations\<close> is the number of score entries in the bucket, over all categories.
  Every record counts in its week bucket and in its month bucket.
\<close>

theorem trend_entry_mean_and_count:
  assumes "\<And>xs. mset (sortByPeriod xs) = mset xs"
    and "t \<in> set (calculateTrends sortByPeriod logs studentId)"
  shows "(\<forall>c. map_of (td_scores t) c =
            (if bucketScores (periodKey (td_period t)) (filterLogs logs studentId) (td_period t) c = []
             then None
             else Some (mean (bucketScores (periodKey (td_period t)) (filterLogs logs studentId)
                                (td_period t) c))))
       \<and> td_totalObservations t =
           length (bucketEntries (periodKey (td_period t)) (filterLogs logs studentId) (td_period t))
       \<and> (\<exists>lg \<in> set (filterLogs logs studentId). periodKey (td_period t) (log_timestamp lg) = td_period t)
       \<and> (\<forall>lg \<in> set (filterLogs logs studentId).
             (\<exists>t' \<in> set (calculateTrends sortByPeriod logs studentId).
                td_period t' = getWeekKey (log_timestamp lg))
             \<and> (\<exists>t' \<in> set (calculateTrends sortByPeriod logs studentId).
                td_period t' = getMonthKey (log_timestamp lg)))"
proof -
  have both: "\<forall>lg \<in> set (filterLogs logs studentId).
             (\<exists>t' \<in> set (calculateTrends sortByPeriod logs studentId).
                td_period t' = getWeekKey (log_timestamp lg))
             \<and> (\<exists>t' \<in> set (calculateTrends sortByPeriod logs studentId).
                td_period t' = getMonthKey (log_timestamp lg))"
    using period_emitted [OF assms(1), of _ logs studentId getWeekKey]
          period_emitted [OF assms(1), of _ logs studentId getMonthKey]
    by blast
  from assms(2) consider
    (week) p obj where "t = toTrend (p, obj)"
      "(p, obj) \<in> set (bucketsBy getWeekKey (filterLogs logs studentId))"
  | (month) p obj where "t = toTrend (p, obj)"
      "(p, obj) \<in> set (bucketsBy getMonthKey (filterLogs logs studentId))"
    unfolding set_calculateTrends [OF assms(1)] by auto
  then show ?thesis
  proof cases
    case week
    note b = bucket_trend [OF week(2)]
    have k: "periodKey (td_period t) = getWeekKey"
      using bucketsBy_week_period [OF week(2)] by (simp add: week(1) b(1))
    show ?thesis
      unfolding k using b(2,3,4) both unfolding week(1) b(1) by blast
  next
    case month
    note b = bucket_trend [OF month(2)]
    have k: "periodKey (td_period t) = getMonthKey"
      using bucketsBy_month_period [OF month(2)] by (simp add: month(1) b(1))
    show ?thesis
      unfolding k using b(2,3,4) both unfolding month(1) b(1) by blast
  qed
qed

lemmas trend_eval =
  calculateTrends_def trendBuckets_def filterLogs_def trendStep_def initKey_def addScore_def
  toTrend_def average_def sampleLog_def bareLog_def bucketEntries_def bucketScores_def
  categoriesOf_def mean_def periodKey_def

text \<open>
  The two records of \<open>trendSample\<close> lie in the week \<open>2024-W01\<close>; its entry averages the three
  \<open>Creativity\<close> scores 2, 4 and 5 and counts four observations.
\<close>

theorem trend_entry_mean_and_count_witness:
  "\<lparr> td_period = ''2024-W01'',
      td_scores = [(''Creativity'', 11 / 3), (''Communication'', 5)],
      td_totalObservations = 4 \<rparr>
     \<in> set (calculateTrends (\<lambda>xs. xs) trendSample None)
   \<and> bucketScores getWeekKey trendSample ''2024-W01'' ''Creativity'' = [2, 4, 5]
   \<and> mean [2, 4, 5] = 11 / 3
   \<and> length (bucketEntries getWeekKey trendSample ''2024-W01'') = 4
   \<and> length trendSample = 2"
proof -
  let ?t = "\<lparr> td_period = ''2024-W01'',
      td_scores = [(''Creativity'', 11 / 3), (''Communication'', 5)],
      td_totalObservations = 4 \<rparr>"
  have perm: "\<And>xs :: TrendData list. mset ((\<lambda>xs. xs) xs) = mset xs" by simp
  have mem: "?t \<in> set (calculateTrends (\<lambda>xs. xs) trendSample None)"
    by (simp add: trendSample_def trend_eval key_eval)
  have k: "periodKey (td_period ?t) = getWeekKey"
    by (simp add: periodKey_def)
  have s: "bucketScores getWeekKey trendSample ''2024-W01'' ''Creativity'' = [2, 4, 5]"
    by (simp add: trendSample_def trend_eval key_eval)
  have m: "mean [2, 4, 5] = 11 / 3" by (simp add: mean_def)
  have "td_totalObservations ?t =
          length (bucketEntries (periodKey (td_period ?t)) (filterLogs trendSample None) (td_period ?t))"
    using trend_entry_mean_and_count [OF perm mem] by blast
  then have n: "length (bucketEntries getWeekKey trendSample ''2024-W01'') = 4"
    unfolding k by (simp add: filterLogs_def)
  have l: "length trendSample = 2" by (simp add: trendSample_def)
  from mem s m n l show ?thesis by blast
qed




text \<open>
  A record that scores a category named \<^verbatim>\<open>constructor\<close> makes both calls throw, whatever
  the other records are.
\<close>

lemma calls_throw_on_inherited_name:
  "calculateTrendsE (\<lambda>xs. xs)
     (emptySample @ [sampleLog ''3'' ''Emma Davis'' (LocalDate 2024 0 2 0) [(''constructor'', 3)]])
     None = Inl TypeError
   \<and> calculatePeerComparisonE
     (emptySample @ [sampleLog ''3'' ''Emma Davis'' (LocalDate 2024 0 2 0) [(''constructor'', 3)]])
     = Inl TypeError"
  by (simp add: calculateTrendsE_calculateTrends calculatePeerComparisonE_calculatePeerComparison
        ownNames_def categoriesOf_def objectPrototypeNames_def emptySample_def sampleLog_def
        bareLog_def filterLogs_def)

subsection \<open>The percentile loop\<close>

lemma setPercentile_pctOf:
  "setPercentile (cohortScores sa c) c s =
     s\<lparr> pc_percentile := AList.update c (pctOf sa c s) (pc_percentile s) \<rparr>"
  by (simp add: setPercentile_def pctOf_def split: option.splits)

lemma positiveAverage_cong:
  "pc_categoryAverages s' = pc_categoryAverages s \<Longrightarrow> positiveAverage s' c = positiveAverage s c"
  by (simp add: positiveAverage_def)

lemma map_filter_map: "List.map_filter f (map g xs) = List.map_filter (\<lambda>x. f (g x)) xs"
  by (induction xs) (simp_all add: List.map_filter_simps split: option.splits)

lemma cohortScores_map:
  assumes "\<And>s. pc_categoryAverages (g s) = pc_categoryAverages s"
  shows "cohortScores (map g sa) c = cohortScores sa c"
proof -
  have "(\<lambda>s. positiveAverage (g s) c) = (\<lambda>s. positiveAverage s c)"
    using assms by (intro ext positiveAverage_cong)
  then show ?thesis by (simp add: cohortScores_def map_filter_map)
qed

lemma pctOf_map:
  assumes "\<And>s. pc_categoryAverages (g s) = pc_categoryAverages s"
  shows "pctOf (map g sa) c (g s) = pctOf sa c s"
proof -
  have a: "cohortScores (map g sa) c = cohortScores sa c"
    by (rule cohortScores_map [of g, OF assms])
  have b: "positiveAverage (g s) c = positiveAverage s c"
    by (rule positiveAverage_cong [OF assms])
  show ?thesis unfolding pctOf_def a b ..
qed

lemma foldl_percentileStep:
  "foldl percentileStep sa cs =
     map (\<lambda>s. s\<lparr> pc_percentile :=
                   foldl (\<lambda>p c. AList.update c (pctOf sa c s) p) (pc_percentile s) cs \<rparr>) sa"
proof (induction cs arbitrary: sa)
  case Nil
  show ?case by (simp add: map_idI)
next
  case (Cons c cs)
  let ?g = "\<lambda>s. s\<lparr> pc_percentile := AList.update c (pctOf sa c s) (pc_percentile s) \<rparr>"
  have step: "percentileStep sa c = map ?g sa"
    by (simp add: percentileStep_def setPercentile_pctOf)
  have keep: "\<And>s. pc_categoryAverages (?g s) = pc_categoryAverages s" by simp
  have "foldl percentileStep sa (c # cs) = foldl percentileStep (map ?g sa) cs"
    by (simp add: step)
  also have "\<dots> = map (\<lambda>s'. s'\<lparr> pc_percentile :=
                   foldl (\<lambda>p c'. AList.update c' (pctOf (map ?g sa) c' s') p) (pc_percentile s') cs \<rparr>)
                 (map ?g sa)"
    by (rule Cons.IH)
  also have "\<dots> = map (\<lambda>s. s\<lparr> pc_percentile :=
                   foldl (\<lambda>p c. AList.update c (pctOf sa c s) p) (pc_percentile s) (c # cs) \<rparr>) sa"
    by (simp add: pctOf_map [of ?g, OF keep])
  finally show ?case .
qed

lemma update_fresh: "k \<notin> fst ` set p \<Longrightarrow> AList.update k v p = p @ [(k, v)]"
  by (induction p) auto

lemma foldl_update_fresh:
  "distinct cs \<Longrightarrow> set cs \<inter> fst ` set p = {} \<Longrightarrow>
   foldl (\<lambda>p c. AList.update c (g c) p) p cs = p @ map (\<lambda>c. (c, g c)) cs"
proof (induction cs arbitrary: p)
  case Nil
  show ?case by simp
next
  case (Cons c cs)
  have fresh: "c \<notin> fst ` set p" using Cons.prems(2) by auto
  have "set cs \<inter> fst ` set (p @ [(c, g c)]) = {}"
    using Cons.prems by auto
  with Cons.IH [of "p @ [(c, g c)]"] Cons.prems(1) show ?case
    by (simp add: update_fresh [OF fresh])
qed

lemma percentiles_of_averages:
  "foldl percentileStep (map toStudentAverage sm) categories =
     map (\<lambda>s. s\<lparr> pc_percentile :=
                   map (\<lambda>c. (c, pctOf (map toStudentAverage sm) c s)) categories \<rparr>)
         (map toStudentAverage sm)"
proof -
  have "pc_percentile s = []" if "s \<in> set (map toStudentAverage sm)" for s
    using that by (auto simp: toStudentAverage_def)
  then show ?thesis
    unfolding foldl_percentileStep
    by (intro map_cong refl) (simp add: foldl_update_fresh distinct_categories)
qed

subsection \<open>The entries of the peer comparison\<close>

lemma peer_entry:
  assumes "e \<in> set (calculatePeerComparison logs)"
  obtains s where "s \<in> set (map toStudentAverage (foldl collectStep [] logs))"
    and "e = setOverall (s\<lparr> pc_percentile :=
               map (\<lambda>c. (c, pctOf (map toStudentAverage (foldl collectStep [] logs)) c s))
                   categories \<rparr>)"
  using assms
  by (auto simp: calculatePeerComparison_def Let_def percentiles_of_averages)

lemma setOverall_fields:
  "pc_categoryAverages (setOverall s) = pc_categoryAverages s"
  "pc_percentile (setOverall s) = pc_percentile s"
  "pc_studentId (setOverall s) = pc_studentId s"
  "pc_studentName (setOverall s) = pc_studentName s"
  by (simp_all add: setOverall_def Let_def)

lemma cohortScores_output:
  "cohortScores (calculatePeerComparison logs) c =
     cohortScores (map toStudentAverage (foldl collectStep [] logs)) c"
proof -
  let ?sa = "map toStudentAverage (foldl collectStep [] logs)"
  let ?h = "\<lambda>s. setOverall (s\<lparr> pc_percentile := map (\<lambda>c. (c, pctOf ?sa c s)) categories \<rparr>)"
  have out: "calculatePeerComparison logs = sort_key (\<lambda>s. - pc_overallPercentile s) (map ?h ?sa)"
    by (simp add: calculatePeerComparison_def Let_def percentiles_of_averages comp_def)
  have keep: "(\<lambda>s. positiveAverage (?h s) c) = (\<lambda>s. positiveAverage s c)"
    by (intro ext positiveAverage_cong) (simp add: setOverall_fields)
  have "mset (List.map_filter (\<lambda>s. positiveAverage s c) (calculatePeerComparison logs)) =
        mset (List.map_filter (\<lambda>s. positiveAverage s c) (map ?h ?sa))"
    unfolding out by (simp add: List.map_filter_def)
  also have "\<dots> = mset (List.map_filter (\<lambda>s. positiveAverage (?h s) c) ?sa)"
    by (simp only: map_filter_map [of "\<lambda>s. positiveAverage s c" ?h ?sa])
  also have "\<dots> = mset (List.map_filter (\<lambda>s. positiveAverage s c) ?sa)"
    by (simp only: keep)
  finally have "sort (List.map_filter (\<lambda>s. positiveAverage s c) (calculatePeerComparison logs)) =
        sort (List.map_filter (\<lambda>s. positiveAverage s c) ?sa)"
    by (intro properties_for_sort) simp_all
  then show ?thesis by (simp add: cohortScores_def)
qed

lemma peer_percentile:
  assumes "e \<in> set (calculatePeerComparison logs)"
  shows "pc_percentile e = map (\<lambda>c. (c, pctOf (calculatePeerComparison logs) c e)) categories"
proof -
  let ?sa = "map toStudentAverage (foldl collectStep [] logs)"
  from assms obtain s where s: "s \<in> set ?sa"
    and e: "e = setOverall (s\<lparr> pc_percentile := map (\<lambda>c. (c, pctOf ?sa c s)) categories \<rparr>)"
    by (rule peer_entry)
  have "positiveAverage e c = positiveAverage s c" for c
    by (rule positiveAverage_cong) (simp add: e setOverall_fields)
  then have "pctOf (calculatePeerComparison logs) c e = pctOf ?sa c s" for c
    unfolding pctOf_def cohortScores_output by simp
  then show ?thesis by (simp add: e setOverall_fields)
qed

lemma map_of_percentile:
  assumes "e \<in> set (calculatePeerComparison logs)" and "c \<in> set categories"
  shows "map_of (pc_percentile e) c = Some (pctOf (calculatePeerComparison logs) c e)"
proof -
  have "map_of (map (\<lambda>c. (c, g c)) cs) c = Some (g c)" if "c \<in> set cs" for cs and g :: "string \<Rightarrow> int"
    using that by (induction cs) auto
  then show ?thesis using assms by (simp add: peer_percentile)
qed

subsection \<open>Ranks in the sorted cohort\<close>


lemma findIndex_lower: "- 1 \<le> findIndex p xs"
  by (induction xs) (simp_all add: Let_def)






lemma percentileOf_nonneg: "0 \<le> percentileOf scores score"
proof -
  have "0 \<le> real_of_int (findIndex (\<lambda>s. s \<ge> score) scores) + 1"
    using findIndex_lower [of "\<lambda>s. s \<ge> score" scores] by linarith
  then have "0 \<le> (real_of_int (findIndex (\<lambda>s. s \<ge> score) scores) + 1) / real (length scores)"
    by simp
  then have "0 \<le> jsDiv (real_of_int (findIndex (\<lambda>s. s \<ge> score) scores) + 1) (real (length scores))"
    unfolding jsDiv_def by (rule roundDouble_nonneg)
  then have "0 \<le> jsDiv (real_of_int (findIndex (\<lambda>s. s \<ge> score) scores) + 1) (real (length scores)) * 100"
    by simp
  then have "0 \<le> jsMul (jsDiv (real_of_int (findIndex (\<lambda>s. s \<ge> score) scores) + 1)
                            (real (length scores))) 100"
    unfolding jsMul_def by (rule roundDouble_nonneg)
  then show ?thesis
    unfolding percentileOf_def Let_def round_def by linarith
qed

lemma pctOf_nonneg: "0 \<le> pctOf sa c s"
  by (simp add: pctOf_def percentileOf_nonneg split: option.splits)

subsection \<open>The averages of a student\<close>

lemma collectStep_keyed:
  "collectStep =
     keyedStep log_studentId
       (\<lambda>lg data. data\<lparr> sd_scores := foldl addScore (sd_scores data) (categoriesOf lg) \<rparr>)
       (\<lambda>lg. \<lparr> sd_scores = [], sd_name = log_studentName lg \<rparr>)"
proof (intro ext)
  fix sm lg
  have fold: "foldl (\<lambda>data categoryScore. data\<lparr> sd_scores := addScore (sd_scores data) categoryScore \<rparr>)
                data cats = data\<lparr> sd_scores := foldl addScore (sd_scores data) cats \<rparr>" for data cats
    by (induction cats arbitrary: data) simp_all
  show "collectStep sm lg =
     keyedStep log_studentId
       (\<lambda>lg data. data\<lparr> sd_scores := foldl addScore (sd_scores data) (categoriesOf lg) \<rparr>)
       (\<lambda>lg. \<lparr> sd_scores = [], sd_name = log_studentName lg \<rparr>) sm lg"
  proof (cases "log_categories lg")
    case None
    then show ?thesis
      by (simp add: collectStep_def keyedStep_def categoriesOf_def Let_def map_entry_ident)
  next
    case (Some cats)
    have "foldl (\<lambda>sm categoryScore.
                   AList.map_entry k
                     (\<lambda>data. data\<lparr> sd_scores := addScore (sd_scores data) categoryScore \<rparr>) sm) m cats =
          AList.map_entry k (\<lambda>data. data\<lparr> sd_scores := foldl addScore (sd_scores data) cats \<rparr>) m"
      for k m
      using map_entry_foldl
              [of k "\<lambda>data categoryScore. data\<lparr> sd_scores := addScore (sd_scores data) categoryScore \<rparr>"
                  m cats]
      by (simp add: fold)
    then show ?thesis
      using Some by (simp add: collectStep_def keyedStep_def categoriesOf_def Let_def)
  qed
qed

lemma foldl_collect_scores:
  "foldl (\<lambda>data lg. data\<lparr> sd_scores := foldl addScore (sd_scores data) (categoriesOf lg) \<rparr>) data lgs =
     data\<lparr> sd_scores := foldl addScore (sd_scores data) (concat (map categoriesOf lgs)) \<rparr>"
  by (induction lgs arbitrary: data) simp_all

lemma distinct_studentMap: "distinct (map fst (foldl collectStep [] logs))"
  by (simp add: collectStep_keyed keyedStep_from_empty(1))

lemma map_of_studentMap:
  "map_of (foldl collectStep [] logs) sid =
     (case studentLogs logs sid of
        [] \<Rightarrow> None
      | lg0 # rest \<Rightarrow>
          Some \<lparr> sd_scores = foldl addScore [] (concat (map categoriesOf (studentLogs logs sid))),
                 sd_name = log_studentName lg0 \<rparr>)"
  unfolding collectStep_keyed keyedStep_from_empty(2) foldl_collect_scores studentLogs_def
  by (simp split: list.splits)

lemma entries_of_category:
  "filter (\<lambda>e. cs_category e = c) (concat (map categoriesOf lgs)) =
     concat (map (categoryEntries c) lgs)"
  by (induction lgs) (simp_all add: categoriesOf_def categoryEntries_def split: option.splits)

lemma studentMap_averages:
  assumes "(sid, data) \<in> set (foldl collectStep [] logs)"
  shows "map_of (pc_categoryAverages (toStudentAverage (sid, data))) c = averageOfStudent logs sid c"
proof -
  have "map_of (foldl collectStep [] logs) sid = Some data"
    using assms distinct_studentMap by simp
  then have data: "sd_scores data = foldl addScore [] (concat (map categoriesOf (studentLogs logs sid)))"
    by (auto simp: map_of_studentMap split: list.splits)
  have "map_of (pc_categoryAverages (toStudentAverage (sid, data))) c =
        map_option (\<lambda>scores. if length scores > 0 then jsAverage scores else 0)
          (map_of (sd_scores data) c)"
    unfolding toStudentAverage_def
    by (simp only: PeerComparison.simps fst_conv snd_conv map_of_map_values)
  then show ?thesis
    by (simp add: data map_of_foldl_addScore entries_of_category averageOfStudent_def
          scoreEntries_def)
qed

lemma peer_averages:
  assumes "e \<in> set (calculatePeerComparison logs)"
  shows "map_of (pc_categoryAverages e) c = averageOfStudent logs (pc_studentId e) c"
proof -
  from assms obtain s where s: "s \<in> set (map toStudentAverage (foldl collectStep [] logs))"
    and e: "e = setOverall (s\<lparr> pc_percentile :=
               map (\<lambda>c. (c, pctOf (map toStudentAverage (foldl collectStep [] logs)) c s))
                   categories \<rparr>)"
    by (rule peer_entry)
  from s obtain sid data where m: "(sid, data) \<in> set (foldl collectStep [] logs)"
    and s': "s = toStudentAverage (sid, data)"
    by auto
  have "pc_studentId e = sid"
    by (simp add: e s' setOverall_fields toStudentAverage_def)
  moreover have "pc_categoryAverages e = pc_categoryAverages (toStudentAverage (sid, data))"
    by (simp add: e s' setOverall_fields)
  ultimately show ?thesis using studentMap_averages [OF m] by simp
qed

lemma averageOfStudent_None:
  "averageOfStudent logs sid c = None \<longleftrightarrow> studentAverage logs sid c = None"
  by (simp add: averageOfStudent_def studentAverage_def)

lemma peer_averages_None:
  assumes "e \<in> set (calculatePeerComparison logs)"
    and "studentAverage logs (pc_studentId e) c = None"
  shows "map_of (pc_categoryAverages e) c = None"
  using assms by (simp add: peer_averages averageOfStudent_None)

subsection \<open>The cohort of a category\<close>






subsection \<open>Percentiles\<close>




lemma peerSample_output: "calculatePeerComparison peerSample = [peerEmma, peerMike, peerSarah]"
  by code_simp


subsection \<open>Overall percentile\<close>

lemma foldl_plus_int: "foldl (+) (0::int) xs = sum_list xs"
  by (simp add: foldl_plus_sum_list)

text \<open>
  C7. For an entry of the output, \<open>overallPercentile\<close> is the rounded mean of those of its
  percentiles that are not zero, and 0 when there is none. The percentiles are those of
  the five canonical categories, none is negative, and the percentile of a category in
  which the student has no score entry is 0: it is left out of the mean, not counted in
  it as a zero.
\<close>

theorem overall_percentile_mean_of_nonzero:
  assumes "e \<in> set (calculatePeerComparison logs)"
  shows "pc_overallPercentile e =
           (let nonZero = filter (\<lambda>p. p \<noteq> 0) (map snd (pc_percentile e))
            in if nonZero = [] then 0
               else round (real_of_int (sum_list nonZero) / real (length nonZero)))
       \<and> map fst (pc_percentile e) = categories
       \<and> (\<forall>p \<in> set (map snd (pc_percentile e)). 0 \<le> p)
       \<and> (\<forall>c \<in> set categories.
             studentAverage logs (pc_studentId e) c = None \<longrightarrow> map_of (pc_percentile e) c = Some 0)"
proof -
  let ?out = "calculatePeerComparison logs"
  have pct: "pc_percentile e = map (\<lambda>c. (c, pctOf ?out c e)) categories"
    using assms by (rule peer_percentile)
  have keys: "map fst (pc_percentile e) = categories"
    by (simp add: pct comp_def)
  have nonneg: "\<forall>p \<in> set (map snd (pc_percentile e)). 0 \<le> p"
    by (auto simp: pct pctOf_nonneg)
  then have same: "filter (\<lambda>p. p > 0) (map snd (pc_percentile e)) =
                   filter (\<lambda>p. p \<noteq> 0) (map snd (pc_percentile e))"
    by (intro filter_cong refl) auto
  from assms obtain s where
    e: "e = setOverall (s\<lparr> pc_percentile :=
               map (\<lambda>c. (c, pctOf (map toStudentAverage (foldl collectStep [] logs)) c s))
                   categories \<rparr>)"
    by (rule peer_entry)
  have "pc_overallPercentile (setOverall x) =
          (let valid = filter (\<lambda>p. p > 0) (map snd (pc_percentile (setOverall x)))
           in if valid = [] then 0
              else round (real_of_int (sum_list valid) / real (length valid)))" for x
    by (simp add: setOverall_def Let_def foldl_plus_int)
  then have "pc_overallPercentile e =
          (let valid = filter (\<lambda>p. p > 0) (map snd (pc_percentile e))
           in if valid = [] then 0
              else round (real_of_int (sum_list valid) / real (length valid)))"
    by (simp only: e)
  then have overall: "pc_overallPercentile e =
           (let nonZero = filter (\<lambda>p. p \<noteq> 0) (map snd (pc_percentile e))
            in if nonZero = [] then 0
               else round (real_of_int (sum_list nonZero) / real (length nonZero)))"
    by (simp only: same)
  have nodata: "\<forall>c \<in> set categories.
             studentAverage logs (pc_studentId e) c = None \<longrightarrow> map_of (pc_percentile e) c = Some 0"
  proof (intro ballI impI)
    fix c assume c: "c \<in> set categories" and "studentAverage logs (pc_studentId e) c = None"
    then have "map_of (pc_categoryAverages e) c = None"
      using peer_averages_None [OF assms, of c] by simp
    then have "pctOf ?out c e = 0"
      by (simp add: pctOf_def positiveAverage_def)
    then show "map_of (pc_percentile e) c = Some 0"
      using map_of_percentile [OF assms c] by simp
  qed
  from overall keys nonneg nodata show ?thesis by blast
qed

text \<open>
  Mike has percentiles 100 and 33 and no score in three categories: his overall
  percentile is \<open>round(133 / 2) = 67\<close>, where counting the three zeros would give 27.
\<close>

theorem overall_percentile_mean_of_nonzero_witness:
  "peerMike \<in> set (calculatePeerComparison peerSample)
   \<and> map snd (pc_percentile peerMike) = [0, 0, 0, 100, 33]
   \<and> filter (\<lambda>p. p \<noteq> 0) (map snd (pc_percentile peerMike)) = [100, 33]
   \<and> pc_overallPercentile peerMike = 67
   \<and> round (real_of_int (sum_list [0, 0, 0, 100, 33]) / 5) = 27
   \<and> studentAverage peerSample (pc_studentId peerMike) ''Social Skills'' = None
   \<and> map_of (pc_percentile peerMike) ''Social Skills'' = Some 0"
proof -
  have m: "peerMike \<in> set (calculatePeerComparison peerSample)"
    by (simp add: peerSample_output)
  have v: "map snd (pc_percentile peerMike) = [0, 0, 0, 100, 33]"
    by (simp add: peerMike_def)
  have nz: "filter (\<lambda>p. p \<noteq> 0) (map snd (pc_percentile peerMike)) = [100, 33]"
    by (simp add: v)
  have c: "''Social Skills'' \<in> set categories" by (simp add: categories_def)
  have n: "studentAverage peerSample (pc_studentId peerMike) ''Social Skills'' = None"
    by code_simp
  note t = overall_percentile_mean_of_nonzero [OF m]
  have o: "pc_overallPercentile peerMike = 67"
    using t unfolding nz by (simp add: round_def)
  have z: "map_of (pc_percentile peerMike) ''Social Skills'' = Some 0"
    using t c n by blast
  have r: "round (real_of_int (sum_list [0, 0, 0, 100, 33]) / 5) = 27"
    by (simp add: round_def)
  from m v nz o r n z show ?thesis by blast
qed

end
